theory Spec2Isabelle
  imports Main "HOL-Library.Word" "HOL-Library.Signed_Division"
begin

section \<open>Values, sequences and the heap (value.h, value.c)\<close>

text \<open>
  A shallow embedding of the interpreter: the value system and the environment
  (value.c), the expressions and statements with their \<open>eval\<close> and \<open>execute\<close> functions
  (syntax.c), the tokenizer and the parser (parse.c) and the loop of \<open>main\<close>
  (interpret.c). What the model fixes where C leaves a choice:
  \<^item> the interpreter's \<open>int\<close> is a 32-bit machine integer; addition, subtraction and
    multiplication wrap around (C leaves signed overflow undefined), comparisons,
    division and printing read the word as two's complement;
  \<^item> a sequence lives in a heap block named by its index; blocks are never reused, and
    a freed block stays in the heap marked as freed, so that a use after \<open>free\<close> and a
    sequence that is never freed are both visible;
  \<^item> \<open>malloc\<close> and \<open>realloc\<close> always succeed; a capacity is an \<open>int\<close>, and the
    doubling \<open>cap *= DOUBLE_CAP\<close> that would pass \<open>INT_MAX\<close> is undefined, so a sequence
    holds at most \<open>5 * 2 ^ 28\<close> elements;
  \<^item> the input is the list of characters still to be read, and \<open>ungetc\<close> puts a
    character back at its front, however many have been put back before.
\<close>

type_synonym cint = "32 word"

text \<open>
  Every way the process can stop early. The first five are the tokenizer's and the
  parser's diagnostics (each carries the line number printed with it), the next three
  the evaluator's. \<open>AssertionFailed\<close> is the \<open>assert\<close> of \<open>releaseSequence\<close>.
  \<open>UndefinedBehaviour\<close> marks what C leaves undefined (a read through a freed
  sequence, a write past a fixed buffer, an integer literal that does not fit an int,
  a capacity doubled past \<open>INT_MAX\<close>);
  \<open>OutOfFuel\<close> is the recursion budget of the executable model running out and is
  not a behaviour of the program.
\<close>

datatype error =
    SyntaxError nat
  | TokenTooLong nat
  | InvalidStringLiteral nat
  | InvalidEscape nat char
  | InvalidSingleQuoted nat
  | TypeMismatch
  | DivideByZero
  | IndexOutOfBounds
  | AssertionFailed
  | UndefinedBehaviour
  | OutOfFuel

definition bindE :: "'e + 'a \<Rightarrow> ('a \<Rightarrow> 'e + 'b) \<Rightarrow> 'e + 'b" where
  "bindE m f = (case m of Inl e \<Rightarrow> Inl e | Inr x \<Rightarrow> f x)"

definition INIT_CAP :: nat where "INIT_CAP = 5"
definition DOUBLE_CAP :: nat where "DOUBLE_CAP = 2"
definition MAX_VAR_NAME :: nat where "MAX_VAR_NAME = 20"
definition MAX_TOKEN :: nat where "MAX_TOKEN = 1023"
definition INT_MAX :: nat where "INT_MAX = 2147483647"

text \<open>
  \<open>struct Sequence\<close>: \<open>seq\<close> holds the first \<open>len\<close> elements of the buffer, so
  \<open>len\<close> is the length of the list; \<open>cap\<close> and \<open>ref\<close> are the fields of the same
  name.
\<close>

record Sequence =
  seq :: "cint list"
  cap :: nat
  ref :: int

text \<open>A heap block is a sequence that \<open>malloc\<close> returned, or one that was freed.\<close>

datatype block = Live Sequence | Freed

text \<open>
  \<open>struct ValueStruct\<close>: the tag and the union. A sequence value is the address of
  its block (its index in the heap).
\<close>

datatype Value = IntV cint | SeqV nat

text \<open>\<open>struct EnvironmentStruct\<close>: the name/value records in insertion order.\<close>

record Environment =
  vlist :: "(string \<times> Value) list"
  capacity :: nat

text \<open>
  What the evaluator works on: the environment, the heap of sequences, and what has
  been written to standard output. \<open>ptr_ival p\<close> is the int that the bytes of the
  pointer to block \<open>p\<close> read as through the union member \<open>ival\<close>; the program
  does not control it.
\<close>

record State =
  env :: Environment
  heap :: "block list"
  ptr_ival :: "nat \<Rightarrow> cint"
  stdout :: string

text \<open>Reading \<open>v.ival\<close>, whichever member was stored last.\<close>

fun ival :: "State \<Rightarrow> Value \<Rightarrow> cint" where
  "ival s (IntV i) = i"
| "ival s (SeqV p) = ptr_ival s p"

text \<open>Following a \<open>Sequence *\<close>: undefined once the block has been freed.\<close>

definition deref :: "State \<Rightarrow> nat \<Rightarrow> error + Sequence" where
  "deref s p =
     (if p < length (heap s)
      then (case heap s ! p of Live q \<Rightarrow> Inr q | Freed \<Rightarrow> Inl UndefinedBehaviour)
      else Inl UndefinedBehaviour)"

definition modify :: "nat \<Rightarrow> (Sequence \<Rightarrow> Sequence) \<Rightarrow> State \<Rightarrow> error + State" where
  "modify p f s =
     bindE (deref s p) (\<lambda>q. Inr (s\<lparr>heap := (heap s)[p := Live (f q)]\<rparr>))"

text \<open>The same for an update of the block that can itself be undefined.\<close>

definition modifyE :: "nat \<Rightarrow> (Sequence \<Rightarrow> error + Sequence) \<Rightarrow> State \<Rightarrow> error + State" where
  "modifyE p f s =
     bindE (deref s p) (\<lambda>q.
     bindE (f q) (\<lambda>q'. Inr (s\<lparr>heap := (heap s)[p := Live q']\<rparr>)))"

definition makeSequence :: "State \<Rightarrow> nat \<times> State" where
  "makeSequence s =
     (length (heap s),
      s\<lparr>heap := heap s @ [Live \<lparr>seq = [], cap = INIT_CAP, ref = 0\<rparr>]\<rparr>)"

definition freeSequence :: "nat \<Rightarrow> State \<Rightarrow> State" where
  "freeSequence p s = s\<lparr>heap := (heap s)[p := Freed]\<rparr>"

definition grabSequence :: "nat \<Rightarrow> State \<Rightarrow> error + State" where
  "grabSequence p s = modify p (\<lambda>q. q\<lparr>ref := ref q + 1\<rparr>) s"

definition releaseSequence :: "nat \<Rightarrow> State \<Rightarrow> error + State" where
  "releaseSequence p s =
     bindE (deref s p) (\<lambda>q.
       if ref q - 1 \<le> 0
       then (if ref q - 1 = 0 then Inr (freeSequence p s) else Inl AssertionFailed)
       else modify p (\<lambda>q. q\<lparr>ref := ref q - 1\<rparr>) s)"

text \<open>
  The append that every sequence-building loop of the program repeats inline: when the
  buffer is full double the capacity (an \<open>int\<close>: undefined when the product passes
  \<open>INT_MAX\<close>), then store at index \<open>len\<close> and increment \<open>len\<close>.
\<close>

definition appendInt :: "cint \<Rightarrow> Sequence \<Rightarrow> error + Sequence" where
  "appendInt x q =
     (if length (seq q) \<ge> cap q
      then (if cap q * DOUBLE_CAP > INT_MAX then Inl UndefinedBehaviour
            else Inr (q\<lparr>seq := seq q @ [x], cap := cap q * DOUBLE_CAP\<rparr>))
      else Inr (q\<lparr>seq := seq q @ [x]\<rparr>))"

text \<open>A loop that appends the elements \<open>xs\<close> one by one, in order.\<close>

fun appendAll :: "cint list \<Rightarrow> Sequence \<Rightarrow> error + Sequence" where
  "appendAll [] q = Inr q"
| "appendAll (x # xs) q = bindE (appendInt x q) (appendAll xs)"

text \<open>
  \<open>for (i = 0; i < src->len; i++) append dst, src->seq[i]\<close>, between two blocks of the
  heap.
\<close>

definition copyElems :: "nat \<Rightarrow> nat \<Rightarrow> State \<Rightarrow> error + State" where
  "copyElems src dst s = bindE (deref s src) (\<lambda>q. modifyE dst (appendAll (seq q)) s)"

subsection \<open>Environment\<close>

definition makeEnvironment :: Environment where
  "makeEnvironment = \<lparr>vlist = [], capacity = INIT_CAP\<rparr>"

text \<open>The linear search; zero for a name that has no record.\<close>

fun lookupVariable_loop :: "(string \<times> Value) list \<Rightarrow> string \<Rightarrow> Value" where
  "lookupVariable_loop [] name = IntV 0"
| "lookupVariable_loop ((n, v) # rest) name =
     (if n = name then v else lookupVariable_loop rest name)"

definition lookupVariable :: "Environment \<Rightarrow> string \<Rightarrow> Value" where
  "lookupVariable e name = lookupVariable_loop (vlist e) name"

text \<open>The position of the first record with the name, or the length of the list.\<close>

fun findPos :: "(string \<times> Value) list \<Rightarrow> string \<Rightarrow> nat" where
  "findPos [] name = 0"
| "findPos ((n, v) # rest) name = (if n = name then 0 else Suc (findPos rest name))"

definition setVariable :: "string \<Rightarrow> Value \<Rightarrow> State \<Rightarrow> error + State" where
  "setVariable name val s =
     (let e = env s; pos = findPos (vlist e) name;
          grow = (pos \<ge> length (vlist e) \<and> length (vlist e) \<ge> capacity e);
          c = (if grow then capacity e * DOUBLE_CAP else capacity e)
      in if grow \<and> capacity e * DOUBLE_CAP > INT_MAX then Inl UndefinedBehaviour
         else if pos = length (vlist e)
         then Inr (s\<lparr>env := \<lparr>vlist = vlist e @ [(name, val)], capacity = c\<rparr>\<rparr>)
         else bindE (case snd (vlist e ! pos) of
                       SeqV p \<Rightarrow> releaseSequence p s
                     | IntV i \<Rightarrow> Inr s)
                (\<lambda>s'. Inr (s'\<lparr>env := \<lparr>vlist = (vlist e)[pos := (name, val)],
                                        capacity = c\<rparr>\<rparr>)))"

fun freeEnvironment_loop :: "(string \<times> Value) list \<Rightarrow> State \<Rightarrow> error + State" where
  "freeEnvironment_loop [] s = Inr s"
| "freeEnvironment_loop ((n, v) # rest) s =
     bindE (case v of SeqV p \<Rightarrow> releaseSequence p s | IntV i \<Rightarrow> Inr s)
       (freeEnvironment_loop rest)"

definition freeEnvironment :: "State \<Rightarrow> error + State" where
  "freeEnvironment s = freeEnvironment_loop (vlist (env s)) s"

section \<open>Expressions (syntax.h, syntax.c)\<close>

datatype Expr =
    LiteralInt cint
  | Add Expr Expr
  | Sub Expr Expr
  | Mul Expr Expr
  | Div Expr Expr
  | And Expr Expr
  | Or Expr Expr
  | Less Expr Expr
  | SequenceInitializer "Expr list"
  | LenExpr Expr
  | Equals Expr Expr
  | Variable string
  | SequenceIndex Expr Expr

fun requireIntType :: "Value \<Rightarrow> error + unit" where
  "requireIntType (IntV i) = Inr ()"
| "requireIntType (SeqV p) = Inl TypeMismatch"

fun requireSeqType :: "Value \<Rightarrow> error + unit" where
  "requireSeqType (SeqV p) = Inr ()"
| "requireSeqType (IntV i) = Inl TypeMismatch"

text \<open>
  Each \<open>evalX\<close> below is the body of the C function of the same name after it has
  evaluated its operands; \<open>eval\<close> further down evaluates the operands and dispatches,
  as the call through the \<open>eval\<close> function pointer does.
\<close>

definition evalAdd :: "Value \<Rightarrow> Value \<Rightarrow> State \<Rightarrow> error + (Value \<times> State)" where
  "evalAdd v1 v2 s =
     (case (v1, v2) of
        (IntV a, IntV b) \<Rightarrow> Inr (IntV (a + b), s)
      | (SeqV seq1, SeqV seq2) \<Rightarrow>
          bindE (grabSequence seq1 s) (\<lambda>s.
          bindE (grabSequence seq2 s) (\<lambda>s.
          case makeSequence s of (ret, s) \<Rightarrow>
          bindE (copyElems seq1 ret s) (\<lambda>s.
          bindE (releaseSequence seq1 s) (\<lambda>s.
          bindE (copyElems seq2 ret s) (\<lambda>s.
          bindE (releaseSequence seq2 s) (\<lambda>s.
          Inr (SeqV ret, s)))))))
      | (SeqV seq1, IntV b) \<Rightarrow>
          bindE (grabSequence seq1 s) (\<lambda>s.
          case makeSequence s of (ret, s) \<Rightarrow>
          bindE (copyElems seq1 ret s) (\<lambda>s.
          bindE (modifyE ret (appendInt b) s) (\<lambda>s.
          bindE (releaseSequence seq1 s) (\<lambda>s.
          Inr (SeqV ret, s)))))
      | (IntV a, SeqV seq2) \<Rightarrow>
          bindE (grabSequence seq2 s) (\<lambda>s.
          case makeSequence s of (ret, s) \<Rightarrow>
          bindE (modify ret (\<lambda>q. q\<lparr>seq := seq q @ [a]\<rparr>) s) (\<lambda>s.
          bindE (copyElems seq2 ret s) (\<lambda>s.
          bindE (releaseSequence seq2 s) (\<lambda>s.
          Inr (SeqV ret, s))))))"

definition evalSub :: "Value \<Rightarrow> Value \<Rightarrow> State \<Rightarrow> error + (Value \<times> State)" where
  "evalSub v1 v2 s =
     bindE (requireIntType v1) (\<lambda>_.
     bindE (requireIntType v2) (\<lambda>_.
     Inr (IntV (ival s v1 - ival s v2), s)))"

text \<open>The two loops of \<open>evalMul\<close>: \<open>times\<close> copies of the source, each element by element.\<close>

fun repeatCopy :: "nat \<Rightarrow> nat \<Rightarrow> nat \<Rightarrow> State \<Rightarrow> error + State" where
  "repeatCopy 0 src dst s = Inr s"
| "repeatCopy (Suc n) src dst s = bindE (copyElems src dst s) (repeatCopy n src dst)"

definition evalMul :: "Value \<Rightarrow> Value \<Rightarrow> State \<Rightarrow> error + (Value \<times> State)" where
  "evalMul v1 v2 s =
     (case v1 of
        SeqV sq \<Rightarrow>
          bindE (grabSequence sq s) (\<lambda>s.
          case makeSequence s of (ret, s) \<Rightarrow>
          bindE (repeatCopy (nat (sint (ival s v2))) sq ret s) (\<lambda>s.
          bindE (releaseSequence sq s) (\<lambda>s.
          Inr (SeqV ret, s))))
      | IntV a \<Rightarrow>
         (case v2 of
            SeqV sq \<Rightarrow>
              bindE (grabSequence sq s) (\<lambda>s.
              case makeSequence s of (ret, s) \<Rightarrow>
              bindE (repeatCopy (nat (sint (ival s v1))) sq ret s) (\<lambda>s.
              bindE (releaseSequence sq s) (\<lambda>s.
              Inr (SeqV ret, s))))
          | IntV b \<Rightarrow>
              bindE (requireIntType v1) (\<lambda>_.
              bindE (requireIntType v2) (\<lambda>_.
              Inr (IntV (a * b), s)))))"

text \<open>
  C's division truncates towards zero; \<open>INT_MIN / -1\<close> does not fit an int and is
  undefined.
\<close>

definition evalDiv :: "Value \<Rightarrow> Value \<Rightarrow> State \<Rightarrow> error + (Value \<times> State)" where
  "evalDiv v1 v2 s =
     bindE (requireIntType v1) (\<lambda>_.
     bindE (requireIntType v2) (\<lambda>_.
     if ival s v2 = 0 then Inl DivideByZero
     else if sint (ival s v1) = - (2 ^ 31) \<and> sint (ival s v2) = - 1 then Inl UndefinedBehaviour
     else Inr (IntV (word_of_int (sint (ival s v1) sdiv sint (ival s v2))), s)))"

text \<open>
  The comparison loop of \<open>evalLess\<close> over the common prefix, then the test of the
  lengths.
\<close>

fun seqLess :: "cint list \<Rightarrow> cint list \<Rightarrow> cint" where
  "seqLess (x # xs) (y # ys) = (if y <s x then 0 else if x <s y then 1 else seqLess xs ys)"
| "seqLess [] (y # ys) = 1"
| "seqLess xs [] = 0"

definition evalLess :: "Value \<Rightarrow> Value \<Rightarrow> State \<Rightarrow> error + (Value \<times> State)" where
  "evalLess v1 v2 s =
     (case (v1, v2) of
        (IntV a, IntV b) \<Rightarrow> Inr (IntV (if a <s b then 1 else 0), s)
      | (SeqV seq1, SeqV seq2) \<Rightarrow>
          bindE (deref s seq1) (\<lambda>q1.
          bindE (deref s seq2) (\<lambda>q2.
          Inr (IntV (seqLess (seq q1) (seq q2)), s)))
      | _ \<Rightarrow> Inl TypeMismatch)"

text \<open>The element loop of \<open>evalEquals\<close>, entered only when the lengths agree.\<close>

fun seqEqualsLoop :: "cint list \<Rightarrow> cint list \<Rightarrow> cint" where
  "seqEqualsLoop (x # xs) (y # ys) = (if x \<noteq> y then 0 else seqEqualsLoop xs ys)"
| "seqEqualsLoop xs ys = 1"

definition evalEquals :: "Value \<Rightarrow> Value \<Rightarrow> State \<Rightarrow> error + (Value \<times> State)" where
  "evalEquals v1 v2 s =
     (case (v1, v2) of
        (IntV a, IntV b) \<Rightarrow> Inr (IntV (if a = b then 1 else 0), s)
      | (IntV a, SeqV seq2) \<Rightarrow> Inr (IntV 0, s)
      | (SeqV seq1, IntV b) \<Rightarrow> Inr (IntV 0, s)
      | (SeqV seq1, SeqV seq2) \<Rightarrow>
          bindE (deref s seq1) (\<lambda>q1.
          bindE (deref s seq2) (\<lambda>q2.
          if length (seq q1) \<noteq> length (seq q2) then Inr (IntV 0, s)
          else Inr (IntV (seqEqualsLoop (seq q1) (seq q2)), s))))"

definition evalLen :: "Value \<Rightarrow> State \<Rightarrow> error + (Value \<times> State)" where
  "evalLen v s =
     bindE (requireSeqType v) (\<lambda>_.
     case v of
       SeqV current \<Rightarrow>
         bindE (grabSequence current s) (\<lambda>s.
         bindE (deref s current) (\<lambda>q.
         bindE (releaseSequence current s) (\<lambda>s.
         Inr (IntV (of_nat (length (seq q))), s))))
     | IntV i \<Rightarrow> Inl TypeMismatch)"

definition evalVariable :: "string \<Rightarrow> State \<Rightarrow> error + (Value \<times> State)" where
  "evalVariable name s = Inr (lookupVariable (env s) name, s)"

definition evalSequenceIndex :: "Value \<Rightarrow> Value \<Rightarrow> State \<Rightarrow> error + (Value \<times> State)" where
  "evalSequenceIndex sv index s =
     bindE (requireSeqType sv) (\<lambda>_.
     bindE (requireIntType index) (\<lambda>_.
     case sv of
       SeqV sequence \<Rightarrow>
         bindE (grabSequence sequence s) (\<lambda>s.
         bindE (deref s sequence) (\<lambda>q.
         if sint (ival s index) < 0 \<or> sint (ival s index) \<ge> int (length (seq q))
         then Inl IndexOutOfBounds
         else bindE (releaseSequence sequence s) (\<lambda>s.
              Inr (IntV (seq q ! nat (sint (ival s index))), s))))
     | IntV i \<Rightarrow> Inl TypeMismatch))"

text \<open>
  The evaluator. \<open>And\<close> and \<open>Or\<close> evaluate their right operand only when the left one
  does not decide; \<open>evalSequence_loop\<close> is the loop of \<open>evalSequence\<close> over the element
  expressions, appending to the new sequence \<open>sq\<close>.
\<close>

fun eval :: "Expr \<Rightarrow> State \<Rightarrow> error + (Value \<times> State)"
and evalSequence_loop :: "Expr list \<Rightarrow> nat \<Rightarrow> State \<Rightarrow> error + State" where
  "eval (LiteralInt val) s = Inr (IntV val, s)"
| "eval (Add e1 e2) s =
     bindE (eval e1 s) (\<lambda>(v1, s). bindE (eval e2 s) (\<lambda>(v2, s). evalAdd v1 v2 s))"
| "eval (Sub e1 e2) s =
     bindE (eval e1 s) (\<lambda>(v1, s). bindE (eval e2 s) (\<lambda>(v2, s). evalSub v1 v2 s))"
| "eval (Mul e1 e2) s =
     bindE (eval e1 s) (\<lambda>(v1, s). bindE (eval e2 s) (\<lambda>(v2, s). evalMul v1 v2 s))"
| "eval (Div e1 e2) s =
     bindE (eval e1 s) (\<lambda>(v1, s). bindE (eval e2 s) (\<lambda>(v2, s). evalDiv v1 v2 s))"
| "eval (And e1 e2) s =
     bindE (eval e1 s) (\<lambda>(v1, s).
     bindE (requireIntType v1) (\<lambda>_.
     if ival s v1 = 0 then Inr (v1, s)
     else bindE (eval e2 s) (\<lambda>(v2, s).
          bindE (requireIntType v2) (\<lambda>_. Inr (v2, s)))))"
| "eval (Or e1 e2) s =
     bindE (eval e1 s) (\<lambda>(v1, s).
     bindE (requireIntType v1) (\<lambda>_.
     if ival s v1 \<noteq> 0 then Inr (v1, s)
     else bindE (eval e2 s) (\<lambda>(v2, s).
          bindE (requireIntType v2) (\<lambda>_. Inr (v2, s)))))"
| "eval (Less e1 e2) s =
     bindE (eval e1 s) (\<lambda>(v1, s). bindE (eval e2 s) (\<lambda>(v2, s). evalLess v1 v2 s))"
| "eval (SequenceInitializer elist) s =
     (case makeSequence s of (sq, s) \<Rightarrow>
      bindE (evalSequence_loop elist sq s) (\<lambda>s. Inr (SeqV sq, s)))"
| "eval (LenExpr e1) s = bindE (eval e1 s) (\<lambda>(v, s). evalLen v s)"
| "eval (Equals e1 e2) s =
     bindE (eval e1 s) (\<lambda>(v1, s). bindE (eval e2 s) (\<lambda>(v2, s). evalEquals v1 v2 s))"
| "eval (Variable name) s = evalVariable name s"
| "eval (SequenceIndex e1 e2) s =
     bindE (eval e1 s) (\<lambda>(v1, s). bindE (eval e2 s) (\<lambda>(v2, s). evalSequenceIndex v1 v2 s))"
| "evalSequence_loop [] sq s = Inr s"
| "evalSequence_loop (e # rest) sq s =
     bindE (eval e s) (\<lambda>(v, s).
     bindE (requireIntType v) (\<lambda>_.
     bindE (modifyE sq (appendInt (ival s v)) s) (evalSequence_loop rest sq)))"

section \<open>Statements (syntax.c)\<close>

datatype Stmt =
    Print Expr
  | Compound "Stmt list"
  | If Expr Stmt
  | While Expr Stmt
  | Push Expr Expr
  | Assignment string "Expr option" Expr

text \<open>
  A statement that stops the process yields the diagnostic together with what had been
  written to standard output by then.
\<close>

definition failWith :: "State \<Rightarrow> error + 'a \<Rightarrow> (error \<times> string) + 'a" where
  "failWith s m = (case m of Inl e \<Rightarrow> Inl (e, stdout s) | Inr x \<Rightarrow> Inr x)"

text \<open>\<open>printf("%d")\<close>: the shortest decimal form, with a leading minus sign.\<close>

function digits10 :: "nat \<Rightarrow> string" where
  "digits10 n =
     (if n < 10 then [''0123456789'' ! n]
      else digits10 (n div 10) @ [''0123456789'' ! (n mod 10)])"
  by pat_completeness auto
termination
  by (relation "measure id") auto

declare digits10.simps [simp del]

definition printf_d :: "cint \<Rightarrow> string" where
  "printf_d i =
     (if sint i < 0 then CHR ''-'' # digits10 (nat (- sint i)) else digits10 (nat (sint i)))"

text \<open>\<open>printf("%c")\<close> writes its int argument converted to unsigned char.\<close>

definition printf_c :: "cint \<Rightarrow> char" where
  "printf_c i = char_of (unat i)"

definition executePrint :: "Value \<Rightarrow> State \<Rightarrow> (error \<times> string) + State" where
  "executePrint v s =
     (case v of
        IntV i \<Rightarrow> Inr (s\<lparr>stdout := stdout s @ printf_d i\<rparr>)
      | SeqV sq \<Rightarrow>
          bindE (failWith s (grabSequence sq s)) (\<lambda>s.
          bindE (failWith s (deref s sq)) (\<lambda>q.
          case s\<lparr>stdout := stdout s @ map printf_c (seq q)\<rparr> of s \<Rightarrow>
          failWith s (releaseSequence sq s))))"

definition executePush :: "Value \<Rightarrow> Value \<Rightarrow> State \<Rightarrow> (error \<times> string) + State" where
  "executePush sv val s =
     failWith s
       (bindE (requireSeqType sv) (\<lambda>_.
        bindE (requireIntType val) (\<lambda>_.
        case sv of
          SeqV realSeq \<Rightarrow>
            bindE (grabSequence realSeq s) (\<lambda>s.
            bindE (modifyE realSeq (appendInt (ival s val)) s) (\<lambda>s.
            releaseSequence realSeq s))
        | IntV i \<Rightarrow> Inl TypeMismatch)))"

text \<open>
  \<open>executeAssignment\<close>: the right-hand side is evaluated first; with an index
  expression the element is overwritten in place, without one the variable is set.
\<close>

definition executeAssignment ::
    "string \<Rightarrow> Expr option \<Rightarrow> Expr \<Rightarrow> State \<Rightarrow> (error \<times> string) + State" where
  "executeAssignment name iexpr expr s =
     failWith s
       (bindE (eval expr s) (\<lambda>(result, s).
        case iexpr of
          Some ie \<Rightarrow>
            bindE (eval ie s) (\<lambda>(i, s).
            bindE (requireIntType i) (\<lambda>_.
            case lookupVariable (env s) name of sv \<Rightarrow>
            bindE (requireSeqType sv) (\<lambda>_.
            case sv of
              SeqV sq \<Rightarrow>
                bindE (deref s sq) (\<lambda>q.
                if sint (ival s i) < 0 \<or> sint (ival s i) \<ge> int (length (seq q))
                then Inl IndexOutOfBounds
                else modify sq (\<lambda>q. q\<lparr>seq := (seq q)[nat (sint (ival s i)) := ival s result]\<rparr>) s)
            | IntV j \<Rightarrow> Inl TypeMismatch)))
        | None \<Rightarrow>
            bindE (case result of SeqV p \<Rightarrow> grabSequence p s | IntV j \<Rightarrow> Inr s) (\<lambda>s.
            setVariable name result s)))"

text \<open>
  Executing a statement. A \<open>while\<close> loop need not end, so the recursion carries a
  budget; \<open>executeCompound_loop\<close> is the loop of \<open>executeCompound\<close>.
\<close>

fun execute :: "nat \<Rightarrow> Stmt \<Rightarrow> State \<Rightarrow> (error \<times> string) + State"
and executeCompound_loop :: "nat \<Rightarrow> Stmt list \<Rightarrow> State \<Rightarrow> (error \<times> string) + State" where
  "execute 0 stmt s = Inl (OutOfFuel, stdout s)"
| "execute (Suc n) (Print e) s =
     bindE (failWith s (eval e s)) (\<lambda>(v, s). executePrint v s)"
| "execute (Suc n) (Compound stmtList) s = executeCompound_loop n stmtList s"
| "execute (Suc n) (If cond body) s =
     bindE (failWith s (eval cond s)) (\<lambda>(result, s).
     bindE (failWith s (requireIntType result)) (\<lambda>_.
     if ival s result \<noteq> 0 then execute n body s else Inr s))"
| "execute (Suc n) (While cond body) s =
     bindE (failWith s (eval cond s)) (\<lambda>(result, s).
     bindE (failWith s (requireIntType result)) (\<lambda>_.
     if ival s result \<noteq> 0
     then bindE (execute n body s) (execute n (While cond body))
     else Inr s))"
| "execute (Suc n) (Push sexpr vexpr) s =
     bindE (failWith s (eval sexpr s)) (\<lambda>(sv, s).
     bindE (failWith s (eval vexpr s)) (\<lambda>(val, s).
     executePush sv val s))"
| "execute (Suc n) (Assignment name iexpr expr) s = executeAssignment name iexpr expr s"
| "executeCompound_loop n [] s = Inr s"
| "executeCompound_loop n (st # rest) s =
     bindE (execute n st s) (executeCompound_loop n rest)"

section \<open>Tokenizer (parse.c)\<close>

text \<open>
  The input file: the characters not yet read (a character put back with \<open>ungetc\<close>
  goes to the front) and the static line counter. A token is the string that
  \<open>parseToken\<close> leaves in its buffer, without the terminating NUL.
\<close>

record Input =
  fp :: string
  lineCount :: nat

text \<open>The character classes of \<open>ctype.h\<close> in the C locale.\<close>

definition isspace :: "char \<Rightarrow> bool" where
  "isspace c = (of_char c = (32::nat) \<or> (9 \<le> (of_char c :: nat) \<and> of_char c \<le> (13::nat)))"

definition isdigit :: "char \<Rightarrow> bool" where
  "isdigit c = (48 \<le> (of_char c :: nat) \<and> of_char c \<le> (57::nat))"

definition isalpha :: "char \<Rightarrow> bool" where
  "isalpha c = ((65 \<le> (of_char c :: nat) \<and> of_char c \<le> (90::nat)) \<or>
                (97 \<le> (of_char c :: nat) \<and> of_char c \<le> (122::nat)))"

definition isalnum :: "char \<Rightarrow> bool" where
  "isalnum c = (isalpha c \<or> isdigit c)"

definition ungetc :: "char \<Rightarrow> Input \<Rightarrow> Input" where
  "ungetc c i = i\<lparr>fp := c # fp i\<rparr>"

definition addToToken :: "char \<Rightarrow> string \<Rightarrow> nat \<Rightarrow> error + string" where
  "addToToken ch token line =
     (if length token \<ge> MAX_TOKEN then Inl (TokenTooLong line) else Inr (token @ [ch]))"

text \<open>
  Skipping a comment: read up to the end of the line or of the file; the result is the
  last character read (\<open>None\<close> for EOF) and the rest of the input.
\<close>

fun skipComment :: "string \<Rightarrow> char option \<times> string" where
  "skipComment [] = (None, [])"
| "skipComment (c # cs) = (if c = CHR 0x0A then (Some c, cs) else skipComment cs)"

text \<open>
  The first loop of \<open>parseToken\<close>: skip whitespace and comments, counting lines. It
  returns the first character of the next token, or \<open>None\<close> at the end of the file.
\<close>

function skipSpace :: "Input \<Rightarrow> char option \<times> Input" where
  "skipSpace i =
     (case fp i of
        [] \<Rightarrow> (None, i)
      | c # cs \<Rightarrow>
          if isspace c \<or> c = CHR ''#''
          then (case (if c = CHR ''#'' then skipComment cs else (Some c, cs)) of
                  (ch, rest) \<Rightarrow>
                    skipSpace \<lparr>fp = rest,
                               lineCount = (if ch = Some (CHR 0x0A) then lineCount i + 1
                                            else lineCount i)\<rparr>)
          else (Some c, i\<lparr>fp := cs\<rparr>))"
  by pat_completeness auto
termination
proof -
  have shorter: "(ch, rest) = skipComment cs \<Longrightarrow> length rest < Suc (length cs)"
    for ch rest cs
    by (induction cs) (auto split: if_splits)
  show ?thesis
    by (relation "measure (\<lambda>i. length (fp i))") (auto split: if_splits dest: shorter)
qed

declare skipSpace.simps [simp del]

text \<open>
  The loops that extend an identifier or a number: add characters while they are in
  the class, and put the first one that is not back.
\<close>

fun readWhile :: "(char \<Rightarrow> bool) \<Rightarrow> string \<Rightarrow> string \<Rightarrow> nat \<Rightarrow> error + (string \<times> string)" where
  "readWhile P [] token line = Inr (token, [])"
| "readWhile P (c # cs) token line =
     (if P c then bindE (addToToken c token line) (\<lambda>token. readWhile P cs token line)
      else Inr (token, c # cs))"

definition unescape :: "char \<Rightarrow> nat \<Rightarrow> error + char" where
  "unescape ch line =
     (if ch = CHR ''n'' then Inr (CHR 0x0A)
      else if ch = CHR ''t'' then Inr (CHR 0x09)
      else if ch = CHR 0x22 then Inr (CHR 0x22)
      else if ch = CHR 0x5C then Inr (CHR 0x5C)
      else Inl (InvalidEscape line ch))"

text \<open>The loop over the body of a quoted string, up to the matching quote.\<close>

fun stringLoop :: "char \<Rightarrow> bool \<Rightarrow> string \<Rightarrow> string \<Rightarrow> nat \<Rightarrow> error + (string \<times> string)" where
  "stringLoop quote escape [] token line = Inl (InvalidStringLiteral line)"
| "stringLoop quote escape (ch # cs) token line =
     (if ch = quote \<and> \<not> escape then Inr (token, cs)
      else if ch = CHR 0x0A then Inl (InvalidStringLiteral line)
      else if \<not> escape \<and> ch = CHR 0x5C then stringLoop quote True cs token line
      else bindE (if escape then unescape ch line else Inr ch) (\<lambda>ch.
           bindE (addToToken ch token line) (\<lambda>token.
           stringLoop quote False cs token line)))"

definition SINGLE_QUOTE_LENGTH :: nat where "SINGLE_QUOTE_LENGTH = 1"

text \<open>\<open>parseToken\<close>: \<open>None\<close> for the token when the file has ended.\<close>

definition parseToken :: "Input \<Rightarrow> error + (string option \<times> Input)" where
  "parseToken i0 =
     (case skipSpace i0 of
        (None, i) \<Rightarrow> Inr (None, i)
      | (Some ch, i) \<Rightarrow>
          if isalpha ch \<or> ch = CHR ''_''
          then bindE (readWhile (\<lambda>c. isalnum c \<or> c = CHR ''_'') (fp i) [ch] (lineCount i))
                 (\<lambda>(token, rest). Inr (Some token, i\<lparr>fp := rest\<rparr>))
          else if ch = CHR ''-'' \<or> isdigit ch
          then bindE (readWhile isdigit (fp i) [ch] (lineCount i))
                 (\<lambda>(token, rest). Inr (Some token, i\<lparr>fp := rest\<rparr>))
          else if ch = CHR 0x22 \<or> ch = CHR 0x27
          then bindE (stringLoop ch False (fp i) [ch] (lineCount i)) (\<lambda>(token, rest).
               bindE (addToToken ch token (lineCount i)) (\<lambda>token.
               if ch = CHR 0x27 \<and> length token \<noteq> SINGLE_QUOTE_LENGTH + 1 + 1
               then Inl (InvalidSingleQuoted (lineCount i))
               else Inr (Some token, i\<lparr>fp := rest\<rparr>)))
          else (case fp i of
                  [] \<Rightarrow> Inr (Some [ch], i)
                | ch2 # rest \<Rightarrow>
                    if (ch = CHR ''='' \<and> ch2 = CHR ''='') \<or>
                       (ch = CHR ''&'' \<and> ch2 = CHR ''&'') \<or>
                       (ch = CHR ''|'' \<and> ch2 = CHR ''|'')
                    then Inr (Some [ch, ch2], i\<lparr>fp := rest\<rparr>)
                    else Inr (Some [ch], i)))"

definition expectToken :: "Input \<Rightarrow> error + (string \<times> Input)" where
  "expectToken i =
     bindE (parseToken i) (\<lambda>(t, i).
     case t of None \<Rightarrow> Inl (SyntaxError (lineCount i)) | Some tok \<Rightarrow> Inr (tok, i))"

definition requireToken :: "string \<Rightarrow> Input \<Rightarrow> error + Input" where
  "requireToken target i =
     bindE (expectToken i) (\<lambda>(tok, i).
     if tok \<noteq> target then Inl (SyntaxError (lineCount i)) else Inr i)"

section \<open>Parser (parse.c)\<close>

text \<open>\<open>tok[k]\<close>: the character of the token at index \<open>k\<close>, the terminating NUL after its end.\<close>

definition tokAt :: "string \<Rightarrow> nat \<Rightarrow> char" where
  "tokAt tok k = (if k < length tok then tok ! k else CHR 0x00)"

text \<open>A plain \<open>char\<close> converted to int; \<open>char\<close> is taken to be signed.\<close>

definition char_to_int :: "char \<Rightarrow> cint" where
  "char_to_int c =
     (if (of_char c :: nat) < 128 then of_nat (of_char c) else of_nat (of_char c) - 256)"

definition isIdentifier :: "string \<Rightarrow> bool" where
  "isIdentifier tok =
     ((isalpha (tokAt tok 0) \<or> tokAt tok 0 = CHR ''_'') \<and>
      list_all (\<lambda>c. isalnum c \<or> c = CHR ''_'') (drop 1 tok) \<and>
      length tok \<le> MAX_VAR_NAME \<and>
      tok \<noteq> ''if'' \<and> tok \<noteq> ''while'' \<and> tok \<noteq> ''print'' \<and> tok \<noteq> ''push'' \<and>
      tok \<noteq> ''len'')"

definition isInfixOperator :: "string \<Rightarrow> bool" where
  "isInfixOperator tok =
     (tok = ''+'' \<or> tok = ''-'' \<or> tok = ''*'' \<or> tok = ''/'' \<or> tok = ''<'' \<or>
      tok = ''=='' \<or> tok = ''&&'' \<or> tok = ''||'' \<or> tok = ''['')"

text \<open>
  \<open>sscanf(tok, "%d%n", &val, &n)\<close>: an optional sign and at least one digit; the value
  read and the number of characters consumed, or \<open>None\<close> when nothing matches.
\<close>

definition digitsValue :: "string \<Rightarrow> int" where
  "digitsValue ds = foldl (\<lambda>a c. 10 * a + (int (of_char c) - 48)) 0 ds"

definition sscanf_d :: "string \<Rightarrow> (int \<times> nat) option" where
  "sscanf_d tok =
     (let neg = (tokAt tok 0 = CHR ''-'');
          signed = (tokAt tok 0 = CHR ''-'' \<or> tokAt tok 0 = CHR ''+'');
          body = (if signed then drop 1 tok else tok);
          ds = takeWhile isdigit body
      in if ds = [] then None
         else Some ((if neg then - digitsValue ds else digitsValue ds),
                    (if signed then 1 else 0) + length ds))"

text \<open>
  The lowering of a double-quoted token: one \<open>LiteralInt\<close> per character after the
  opening quote, up to the next double quote.
\<close>

fun stringElems :: "string \<Rightarrow> nat \<Rightarrow> error + Expr list" where
  "stringElems [] line = Inl UndefinedBehaviour"
| "stringElems (current # cs) line =
     (if current = CHR 0x22 then Inr []
      else if char_to_int current = - 1 then Inl (SyntaxError line)
      else bindE (stringElems cs line) (\<lambda>elist. Inr (LiteralInt (char_to_int current) # elist)))"

text \<open>
  The expression parser. The recursion carries a budget. \<open>parseExpr_loop\<close> is the
  \<open>while\<close> loop of \<open>parseExpr\<close> with the expression built so far; \<open>parseSequence_loop\<close>
  is the loop of \<open>parseTerm\<close> over the elements of a bracketed sequence, whose array
  \<open>elist\<close> has room for \<open>MAX_TOKEN\<close> expressions.
\<close>

fun parseTerm :: "nat \<Rightarrow> string \<Rightarrow> Input \<Rightarrow> error + (Expr \<times> Input)"
and parseExpr :: "nat \<Rightarrow> string \<Rightarrow> Input \<Rightarrow> error + (Expr \<times> Input)"
and parseExpr_loop :: "nat \<Rightarrow> Expr \<Rightarrow> Input \<Rightarrow> error + (Expr \<times> Input)"
and parseSequence_loop :: "nat \<Rightarrow> string \<Rightarrow> Expr list \<Rightarrow> Input \<Rightarrow> error + (Expr list \<times> Input)" where
  "parseTerm 0 tok i = Inl OutOfFuel"
| "parseTerm (Suc n) tok i =
     (if tok = ''(''
      then bindE (expectToken i) (\<lambda>(t, i).
           bindE (parseExpr n t i) (\<lambda>(expr, i).
           bindE (requireToken '')'' i) (\<lambda>i. Inr (expr, i))))
      else if tokAt tok 0 = CHR ''-'' \<or> isdigit (tokAt tok 0)
      then (case sscanf_d tok of
              None \<Rightarrow> Inl (SyntaxError (lineCount i))
            | Some (val, k) \<Rightarrow>
                if k \<noteq> length tok then Inl (SyntaxError (lineCount i))
                else if val < - (2 ^ 31) \<or> 2 ^ 31 \<le> val then Inl UndefinedBehaviour
                else Inr (LiteralInt (word_of_int val), i))
      else if tokAt tok 0 = CHR 0x27 then Inr (LiteralInt (char_to_int (tokAt tok 1)), i)
      else if isIdentifier tok then Inr (Variable tok, i)
      else if tokAt tok 0 = CHR ''[''
      then bindE (expectToken i) (\<lambda>(currentToken, i).
           bindE (parseSequence_loop n currentToken [] i) (\<lambda>(elist, i).
           Inr (SequenceInitializer elist, i)))
      else if tok = ''len''
      then bindE (expectToken i) (\<lambda>(t, i).
           bindE (parseExpr n t i) (\<lambda>(len, i). Inr (LenExpr len, i)))
      else if tokAt tok 0 = CHR 0x22
      then bindE (stringElems (drop 1 tok) (lineCount i)) (\<lambda>elist.
           Inr (SequenceInitializer elist, i))
      else Inl (SyntaxError (lineCount i)))"
| "parseExpr 0 tok i = Inl OutOfFuel"
| "parseExpr (Suc n) tok i =
     bindE (parseTerm n tok i) (\<lambda>(left, i). parseExpr_loop n left i)"
| "parseExpr_loop 0 left i = Inl OutOfFuel"
| "parseExpr_loop (Suc n) left i =
     bindE (expectToken i) (\<lambda>(op, i).
     if isInfixOperator op
     then bindE (expectToken i) (\<lambda>(tok, i).
          bindE (parseTerm n tok i) (\<lambda>(right, i).
          if op = ''+'' then parseExpr_loop n (Add left right) i
          else if op = ''-'' then parseExpr_loop n (Sub left right) i
          else if op = ''*'' then parseExpr_loop n (Mul left right) i
          else if op = ''/'' then parseExpr_loop n (Div left right) i
          else if op = ''&&'' then parseExpr_loop n (And left right) i
          else if op = ''||'' then parseExpr_loop n (Or left right) i
          else if op = ''<'' then parseExpr_loop n (Less left right) i
          else if op = ''=='' then parseExpr_loop n (Equals left right) i
          else if op = ''[''
          then bindE (requireToken '']'' i) (parseExpr_loop n (SequenceIndex left right))
          else parseExpr_loop n left i))
     else if op \<noteq> '';'' \<and> op \<noteq> '')'' \<and> op \<noteq> '']'' \<and> op \<noteq> '',''
     then Inl (SyntaxError (lineCount i))
     else Inr (left, ungetc (tokAt op 0) i))"
| "parseSequence_loop 0 currentToken elist i = Inl OutOfFuel"
| "parseSequence_loop (Suc n) currentToken elist i =
     (if currentToken = '']'' then Inr (elist, i)
      else bindE (parseExpr n currentToken i) (\<lambda>(newExpr, i).
           if length elist \<ge> MAX_TOKEN then Inl UndefinedBehaviour
           else bindE (expectToken i) (\<lambda>(currentToken, i).
                if currentToken \<noteq> '']'' \<and> currentToken \<noteq> '',''
                then Inl (SyntaxError (lineCount i))
                else if currentToken \<noteq> '']''
                then bindE (expectToken i) (\<lambda>(currentToken, i).
                     parseSequence_loop n currentToken (elist @ [newExpr]) i)
                else parseSequence_loop n currentToken (elist @ [newExpr]) i)))"

text \<open>The statement parser; \<open>parseCompound_loop\<close> is the loop over a block's statements.\<close>

fun parseStmt :: "nat \<Rightarrow> string \<Rightarrow> Input \<Rightarrow> error + (Stmt \<times> Input)"
and parseCompound_loop :: "nat \<Rightarrow> Stmt list \<Rightarrow> Input \<Rightarrow> error + (Stmt list \<times> Input)" where
  "parseStmt 0 tok i = Inl OutOfFuel"
| "parseStmt (Suc n) tok i =
     (if tok = ''{''
      then bindE (parseCompound_loop n [] i) (\<lambda>(stmtList, i). Inr (Compound stmtList, i))
      else if tok = ''print''
      then bindE (expectToken i) (\<lambda>(t, i).
           bindE (parseExpr n t i) (\<lambda>(arg, i).
           bindE (requireToken '';'' i) (\<lambda>i. Inr (Print arg, i))))
      else if tok = ''if''
      then bindE (requireToken ''('' i) (\<lambda>i.
           bindE (expectToken i) (\<lambda>(t, i).
           bindE (parseExpr n t i) (\<lambda>(cond, i).
           bindE (requireToken '')'' i) (\<lambda>i.
           bindE (expectToken i) (\<lambda>(t, i).
           bindE (parseStmt n t i) (\<lambda>(body, i). Inr (If cond body, i)))))))
      else if tok = ''while''
      then bindE (requireToken ''('' i) (\<lambda>i.
           bindE (expectToken i) (\<lambda>(t, i).
           bindE (parseExpr n t i) (\<lambda>(cond, i).
           bindE (requireToken '')'' i) (\<lambda>i.
           bindE (expectToken i) (\<lambda>(t, i).
           bindE (parseStmt n t i) (\<lambda>(body, i). Inr (While cond body, i)))))))
      else if tok = ''push''
      then bindE (expectToken i) (\<lambda>(t, i).
           bindE (parseExpr n t i) (\<lambda>(sexpr, i).
           bindE (requireToken '','' i) (\<lambda>i.
           bindE (expectToken i) (\<lambda>(t, i).
           bindE (parseExpr n t i) (\<lambda>(vexpr, i).
           bindE (requireToken '';'' i) (\<lambda>i. Inr (Push sexpr vexpr, i)))))))
      else if isIdentifier tok
      then bindE (expectToken i) (\<lambda>(t, i).
           if t = ''[''
           then bindE (expectToken i) (\<lambda>(t, i).
                bindE (parseExpr n t i) (\<lambda>(iexpr, i).
                bindE (requireToken '']'' i) (\<lambda>i.
                bindE (requireToken ''='' i) (\<lambda>i.
                bindE (expectToken i) (\<lambda>(t, i).
                bindE (parseExpr n t i) (\<lambda>(expr, i).
                bindE (requireToken '';'' i) (\<lambda>i.
                Inr (Assignment tok (Some iexpr) expr, i))))))))
           else if t = ''=''
           then bindE (expectToken i) (\<lambda>(t, i).
                bindE (parseExpr n t i) (\<lambda>(expr, i).
                bindE (requireToken '';'' i) (\<lambda>i.
                Inr (Assignment tok None expr, i))))
           else Inl (SyntaxError (lineCount i)))
      else Inl (SyntaxError (lineCount i)))"
| "parseCompound_loop 0 stmtList i = Inl OutOfFuel"
| "parseCompound_loop (Suc n) stmtList i =
     bindE (expectToken i) (\<lambda>(tok, i).
     if tok = ''}'' then Inr (stmtList, i)
     else bindE (parseStmt n tok i) (\<lambda>(st, i). parseCompound_loop n (stmtList @ [st]) i))"

section \<open>Driver (interpret.c)\<close>

text \<open>
  The loop of \<open>main\<close>: read a token, parse one statement, execute it, and go on; at
  the end of the file free the environment. The result is the final state when the
  process exits with \<open>EXIT_SUCCESS\<close>, or the diagnostic and the output written so far
  when it exits with \<open>EXIT_FAILURE\<close>.
\<close>

fun main_loop :: "nat \<Rightarrow> Input \<Rightarrow> State \<Rightarrow> (error \<times> string) + State" where
  "main_loop 0 i s = Inl (OutOfFuel, stdout s)"
| "main_loop (Suc n) i s =
     bindE (failWith s (parseToken i)) (\<lambda>(t, i).
     case t of
       None \<Rightarrow> failWith s (freeEnvironment s)
     | Some tok \<Rightarrow>
         bindE (failWith s (parseStmt n tok i)) (\<lambda>(stmt, i).
         bindE (execute n stmt s) (main_loop n i)))"

definition initState :: "(nat \<Rightarrow> cint) \<Rightarrow> State" where
  "initState pv = \<lparr>env = makeEnvironment, heap = [], ptr_ival = pv, stdout = []\<rparr>"

definition main :: "nat \<Rightarrow> (nat \<Rightarrow> cint) \<Rightarrow> string \<Rightarrow> (error \<times> string) + State" where
  "main fuel pv program = main_loop fuel \<lparr>fp = program, lineCount = 1\<rparr> (initState pv)"

definition exit_status :: "(error \<times> string) + State \<Rightarrow> nat" where
  "exit_status r = (case r of Inl e \<Rightarrow> 1 | Inr s \<Rightarrow> 0)"

definition written :: "(error \<times> string) + State \<Rightarrow> string" where
  "written r = (case r of Inl (e, out) \<Rightarrow> out | Inr s \<Rightarrow> stdout s)"

section \<open>Vocabulary of the statements\<close>





text \<open>
  The most elements a sequence can hold: capacities are 5, 10, 20, ... and the last
  doubling that stays within \<open>INT_MAX\<close> gives \<open>5 * 2 ^ 28\<close>. \<open>capacityInv\<close> is the
  invariant of a buffer that was grown by doubling from the initial capacity.
\<close>

definition maxElements :: nat where
  "maxElements = 5 * 2 ^ 28"

definition capacityInv :: "Sequence \<Rightarrow> bool" where
  "capacityInv q = ((\<exists>k. k \<le> 28 \<and> cap q = 5 * 2 ^ k) \<and> length (seq q) \<le> cap q)"

text \<open>A reading of pointers as ints for closed examples; no result below depends on it.\<close>

definition example_ptr_ival :: "nat \<Rightarrow> cint" where
  "example_ptr_ival p = of_nat p"

section \<open>Properties of the evaluator\<close>

subsection \<open>Heap lemmas\<close>

lemma derefD: "deref s p = Inr q \<Longrightarrow> p < length (heap s) \<and> heap s ! p = Live q"
  by (auto simp: deref_def split: if_splits block.splits)

lemma cap_double:
  assumes "k < (28::nat)"
  shows "(5::nat) * 2 ^ k * 2 \<le> 2147483647"
proof -
  have "(2::nat) ^ Suc k \<le> 2 ^ 28"
    using assms by (intro power_increasing) simp_all
  then show ?thesis by simp
qed

lemma appendInt_fits:
  assumes "capacityInv q" and "length (seq q) < maxElements"
  shows "\<exists>q'. appendInt x q = Inr q' \<and> seq q' = seq q @ [x] \<and> ref q' = ref q \<and> capacityInv q'"
proof -
  from assms(1) obtain k where k: "k \<le> 28" "cap q = 5 * 2 ^ k" and l: "length (seq q) \<le> cap q"
    by (auto simp: capacityInv_def)
  show ?thesis
  proof (cases "length (seq q) \<ge> cap q")
    case True
    then have "cap q < 5 * 2 ^ 28"
      using assms(2) l by (simp add: maxElements_def)
    then have "k \<noteq> 28"
      using k(2) by auto
    then have k28: "k < 28"
      using k(1) by simp
    have "cap q * 2 \<le> 2147483647"
      unfolding k(2) by (rule cap_double [OF k28])
    moreover have "Suc k \<le> 28 \<and> cap q * 2 = 5 * 2 ^ Suc k"
      using k28 k(2) by simp
    moreover have "Suc (length (seq q)) \<le> cap q * 2"
      using True l k(2) by simp
    ultimately show ?thesis
      using True l
      by (auto simp: appendInt_def capacityInv_def DOUBLE_CAP_def INT_MAX_def simp del: power_Suc)
  next
    case False
    then show ?thesis
      using k by (auto simp: appendInt_def capacityInv_def)
  qed
qed

lemma appendInt_full:
  assumes "capacityInv q" and "maxElements \<le> length (seq q)"
  shows "appendInt x q = Inl UndefinedBehaviour"
proof -
  from assms(1) obtain k where k: "k \<le> 28" "cap q = 5 * 2 ^ k" and l: "length (seq q) \<le> cap q"
    by (auto simp: capacityInv_def)
  have "(2::nat) ^ k \<le> 2 ^ 28"
    using k(1) by (intro power_increasing) simp_all
  then have "cap q \<le> 5 * 2 ^ 28"
    using k(2) by simp
  then have "cap q = 5 * 2 ^ 28" "length (seq q) = cap q"
    using assms(2) l by (simp_all add: maxElements_def)
  then show ?thesis
    by (simp add: appendInt_def DOUBLE_CAP_def INT_MAX_def)
qed

lemma appendAll_fits:
  assumes "capacityInv q" and "length (seq q) + length xs \<le> maxElements"
  shows "\<exists>q'. appendAll xs q = Inr q' \<and> seq q' = seq q @ xs \<and> ref q' = ref q \<and> capacityInv q'"
  using assms
proof (induction xs arbitrary: q)
  case Nil
  then show ?case by simp
next
  case (Cons x xs)
  from appendInt_fits [OF Cons.prems(1), of x] Cons.prems(2)
  obtain q1 where q1: "appendInt x q = Inr q1" "seq q1 = seq q @ [x]" "ref q1 = ref q" "capacityInv q1"
    by auto
  from Cons.IH [OF q1(4)] Cons.prems(2) q1(2)
  obtain q' where "appendAll xs q1 = Inr q'" "seq q' = seq q1 @ xs" "ref q' = ref q1" "capacityInv q'"
    by auto
  then show ?case
    using q1 by (simp add: bindE_def)
qed

lemma appendAll_overflow:
  assumes "capacityInv q" and "maxElements < length (seq q) + length xs"
  shows "appendAll xs q = Inl UndefinedBehaviour"
  using assms
proof (induction xs arbitrary: q)
  case Nil
  then have "maxElements \<le> length (seq q)" by simp
  moreover have "length (seq q) \<le> maxElements"
  proof -
    from Nil.prems(1) obtain k where k: "k \<le> 28" "cap q = 5 * 2 ^ k" and l: "length (seq q) \<le> cap q"
      by (auto simp: capacityInv_def)
    have "(2::nat) ^ k \<le> 2 ^ 28"
      using k(1) by (intro power_increasing) simp_all
    then show ?thesis using k(2) l by (simp add: maxElements_def)
  qed
  ultimately show ?case using Nil.prems(2) by simp
next
  case (Cons x xs)
  show ?case
  proof (cases "length (seq q) < maxElements")
    case True
    from appendInt_fits [OF Cons.prems(1) True, of x]
    obtain q1 where q1: "appendInt x q = Inr q1" "seq q1 = seq q @ [x]" "capacityInv q1"
      by auto
    have "appendAll xs q1 = Inl UndefinedBehaviour"
      using Cons.prems(2) q1(2) by (intro Cons.IH [OF q1(3)]) simp
    then show ?thesis
      using q1(1) by (simp add: bindE_def)
  next
    case False
    then have "appendInt x q = Inl UndefinedBehaviour"
      by (intro appendInt_full [OF Cons.prems(1)]) simp
    then show ?thesis
      by (simp add: bindE_def)
  qed
qed

lemma capacityInv_new: "capacityInv \<lparr>seq = [], cap = INIT_CAP, ref = r\<rparr>"
  by (auto simp: capacityInv_def INIT_CAP_def intro: exI [of _ 0])

lemma repeatCopy_fits:
  assumes "a < length (heap s)" "heap s ! a = Live qa"
    and "r < length (heap s)" "heap s ! r = Live qr" "a \<noteq> r"
    and "capacityInv qr" and "length (seq qr) + n * length (seq qa) \<le> maxElements"
  shows "\<exists>q'. repeatCopy n a r s = Inr (s\<lparr>heap := (heap s)[r := Live q']\<rparr>) \<and>
           seq q' = seq qr @ concat (replicate n (seq qa)) \<and> ref q' = ref qr"
  using assms
proof (induction n arbitrary: s qr)
  case 0
  have "s\<lparr>heap := (heap s)[r := Live qr]\<rparr> = s"
    using 0 by (simp add: list_update_same_conv)
  then show ?case by (intro exI [of _ qr]) simp
next
  case (Suc n)
  from appendAll_fits [OF Suc.prems(6), of "seq qa"] Suc.prems(7)
  obtain q1 where q1: "appendAll (seq qa) qr = Inr q1" "seq q1 = seq qr @ seq qa"
      "ref q1 = ref qr" "capacityInv q1"
    by auto
  let ?s1 = "s\<lparr>heap := (heap s)[r := Live q1]\<rparr>"
  have c: "copyElems a r s = Inr ?s1"
    using Suc.prems q1(1) by (simp add: copyElems_def modifyE_def deref_def bindE_def)
  have "\<exists>q'. repeatCopy n a r ?s1 = Inr (?s1\<lparr>heap := (heap ?s1)[r := Live q']\<rparr>) \<and>
           seq q' = seq q1 @ concat (replicate n (seq qa)) \<and> ref q' = ref q1"
    using Suc.prems q1 by (intro Suc.IH) simp_all
  then obtain q' where q':
      "repeatCopy n a r ?s1 = Inr (?s1\<lparr>heap := (heap ?s1)[r := Live q']\<rparr>)"
      "seq q' = seq q1 @ concat (replicate n (seq qa))" "ref q' = ref q1"
    by blast
  show ?case
    using c q' q1 by (intro exI [of _ q']) (simp add: bindE_def)
qed

lemma repeatCopy_overflow:
  assumes "a < length (heap s)" "heap s ! a = Live qa"
    and "r < length (heap s)" "heap s ! r = Live qr" "a \<noteq> r"
    and "capacityInv qr" and "maxElements < length (seq qr) + n * length (seq qa)"
  shows "repeatCopy n a r s = Inl UndefinedBehaviour"
  using assms
proof (induction n arbitrary: s qr)
  case 0
  from appendAll_overflow [OF 0(6), of "[]"] 0(7) show ?case by simp
next
  case (Suc n)
  show ?case
  proof (cases "length (seq qr) + length (seq qa) \<le> maxElements")
    case True
    from appendAll_fits [OF Suc.prems(6) True]
    obtain q1 where q1: "appendAll (seq qa) qr = Inr q1" "seq q1 = seq qr @ seq qa"
        "capacityInv q1"
      by auto
    let ?s1 = "s\<lparr>heap := (heap s)[r := Live q1]\<rparr>"
    have c: "copyElems a r s = Inr ?s1"
      using Suc.prems q1(1) by (simp add: copyElems_def modifyE_def deref_def bindE_def)
    have "repeatCopy n a r ?s1 = Inl UndefinedBehaviour"
      using Suc.prems q1 by (intro Suc.IH [of ?s1 q1]) simp_all
    then show ?thesis
      using c by (simp add: bindE_def)
  next
    case False
    then have "appendAll (seq qa) qr = Inl UndefinedBehaviour"
      by (intro appendAll_overflow [OF Suc.prems(6)]) simp
    then have "copyElems a r s = Inl UndefinedBehaviour"
      using Suc.prems by (simp add: copyElems_def modifyE_def deref_def bindE_def)
    then show ?thesis
      by (simp add: bindE_def)
  qed
qed

subsection \<open>Multiplying two sequences\<close>

text \<open>
  C2. The claim: a \<open>Mul\<close> whose operands both evaluate to sequences reports
  \<open>Type mismatch\<close>. In \<open>evalMul\<close> the test for a sequence on the left comes first, so
  the branch that reports the mismatch is never reached: whenever the left operand is a
  live sequence, the product of two sequences is never \<open>Type mismatch\<close>. It is a new
  sequence, the left one repeated as many times as the right operand's pointer reads as
  an int, as long as that many elements fit a buffer, and undefined beyond.
\<close>

theorem eval_Mul_Seq_Seq:
  assumes "eval e1 s = Inr (SeqV a, s1)" and "eval e2 s1 = Inr (SeqV b, s2)"
    and "deref s2 a = Inr qa" and "0 \<le> ref qa"
  shows "eval (Mul e1 e2) s \<noteq> Inl TypeMismatch \<and>
         (nat (sint (ptr_ival s2 b)) * length (seq qa) \<le> maxElements \<longrightarrow>
            (\<exists>s' q. eval (Mul e1 e2) s = Inr (SeqV (length (heap s2)), s') \<and>
               deref s' (length (heap s2)) = Inr q \<and>
               seq q = concat (replicate (nat (sint (ptr_ival s2 b))) (seq qa)))) \<and>
         (maxElements < nat (sint (ptr_ival s2 b)) * length (seq qa) \<longrightarrow>
            eval (Mul e1 e2) s = Inl UndefinedBehaviour)"
proof -
  from assms(3) have a: "a < length (heap s2)" "heap s2 ! a = Live qa"
    by (auto dest: derefD)
  let ?new = "\<lparr>seq = [], cap = INIT_CAP, ref = 0\<rparr>"
  let ?g = "s2\<lparr>heap := (heap s2)[a := Live (qa\<lparr>ref := ref qa + 1\<rparr>)] @ [Live ?new]\<rparr>"
  let ?r = "length (heap s2)"
  let ?n = "nat (sint (ptr_ival s2 b))"
  have g: "a < length (heap ?g)" "heap ?g ! a = Live (qa\<lparr>ref := ref qa + 1\<rparr>)"
      "?r < length (heap ?g)" "heap ?g ! ?r = Live ?new" "a \<noteq> ?r"
    using a by (simp_all add: nth_append)
  have e: "eval (Mul e1 e2) s =
             bindE (repeatCopy ?n a ?r ?g) (\<lambda>s. bindE (releaseSequence a s) (\<lambda>s. Inr (SeqV ?r, s)))"
    using assms(1,2) a
    by (simp add: evalMul_def grabSequence_def modify_def makeSequence_def deref_def bindE_def
          cong: sum.case_cong)
  have fits: "\<exists>s' q. eval (Mul e1 e2) s = Inr (SeqV ?r, s') \<and> deref s' ?r = Inr q \<and>
                 seq q = concat (replicate ?n (seq qa))"
    if "?n * length (seq qa) \<le> maxElements"
  proof -
    from repeatCopy_fits [OF g capacityInv_new, of ?n] that
    obtain q' where q':
        "repeatCopy ?n a ?r ?g = Inr (?g\<lparr>heap := (heap ?g)[?r := Live q']\<rparr>)"
        "seq q' = concat (replicate ?n (seq qa))"
      by auto
    show ?thesis
      unfolding e using assms(4) a q'
      by (simp add: releaseSequence_def modify_def freeSequence_def deref_def bindE_def nth_append)
  qed
  have over: "eval (Mul e1 e2) s = Inl UndefinedBehaviour"
    if "maxElements < ?n * length (seq qa)"
  proof -
    have "repeatCopy ?n a ?r ?g = Inl UndefinedBehaviour"
      using that by (intro repeatCopy_overflow [OF g capacityInv_new]) simp
    then show ?thesis
      unfolding e by (simp add: bindE_def)
  qed
  have "eval (Mul e1 e2) s \<noteq> Inl TypeMismatch"
  proof (cases "?n * length (seq qa) \<le> maxElements")
    case True
    from fits [OF True] show ?thesis by auto
  next
    case False
    then show ?thesis using over by simp
  qed
  then show ?thesis
    using fits over by blast
qed

theorem eval_Mul_Seq_Seq_witness:
  "eval (SequenceInitializer [LiteralInt 1]) (initState (\<lambda>p. 3)) =
     Inr (SeqV 0, (initState (\<lambda>p. 3))\<lparr>heap := [Live \<lparr>seq = [1], cap = 5, ref = 0\<rparr>]\<rparr>) \<and>
   eval (SequenceInitializer [LiteralInt 2])
       ((initState (\<lambda>p. 3))\<lparr>heap := [Live \<lparr>seq = [1], cap = 5, ref = 0\<rparr>]\<rparr>) =
     Inr (SeqV 1, (initState (\<lambda>p. 3))\<lparr>heap := [Live \<lparr>seq = [1], cap = 5, ref = 0\<rparr>,
                                                 Live \<lparr>seq = [2], cap = 5, ref = 0\<rparr>]\<rparr>) \<and>
   eval (Mul (SequenceInitializer [LiteralInt 1]) (SequenceInitializer [LiteralInt 2]))
              (initState (\<lambda>p. 3)) \<noteq> Inl TypeMismatch \<and>
   (\<exists>s' q. eval (Mul (SequenceInitializer [LiteralInt 1]) (SequenceInitializer [LiteralInt 2]))
              (initState (\<lambda>p. 3)) = Inr (SeqV 2, s') \<and>
            deref s' 2 = Inr q \<and> seq q = [1, 1, 1]) \<and>
   eval (Mul (SequenceInitializer [LiteralInt 1, LiteralInt 1]) (SequenceInitializer [LiteralInt 2]))
              (initState (\<lambda>p. 1073741824)) = Inl UndefinedBehaviour"
proof -
  let ?s = "initState (\<lambda>p. 3)"
  let ?s1 = "?s\<lparr>heap := [Live \<lparr>seq = [1], cap = 5, ref = 0\<rparr>]\<rparr>"
  let ?s2 = "?s\<lparr>heap := [Live \<lparr>seq = [1], cap = 5, ref = 0\<rparr>, Live \<lparr>seq = [2], cap = 5, ref = 0\<rparr>]\<rparr>"
  let ?m = "eval (Mul (SequenceInitializer [LiteralInt 1]) (SequenceInitializer [LiteralInt 2])) ?s"
  have h1: "eval (SequenceInitializer [LiteralInt 1]) ?s = Inr (SeqV 0, ?s1)"
    by (simp add: initState_def makeSequence_def modifyE_def deref_def bindE_def appendInt_def
          INIT_CAP_def)
  have h2: "eval (SequenceInitializer [LiteralInt 2]) ?s1 = Inr (SeqV 1, ?s2)"
    by (simp add: initState_def makeSequence_def modifyE_def deref_def bindE_def appendInt_def
          INIT_CAP_def)
  have h3: "deref ?s2 0 = Inr \<lparr>seq = [1], cap = 5, ref = 0\<rparr>"
    by (simp add: deref_def initState_def)
  have h4: "0 \<le> ref \<lparr>seq = [1], cap = 5, ref = 0\<rparr>"
    by simp
  have l: "length (heap ?s2) = 2"
    by (simp add: initState_def)
  have n: "nat (sint (ptr_ival ?s2 1)) = 3"
    by (simp add: initState_def)
  have c: "concat (replicate 3 (seq \<lparr>seq = [1::cint], cap = 5, ref = 0\<rparr>)) = [1, 1, 1]"
    by (simp add: numeral_3_eq_3)
  have b: "nat (sint (ptr_ival ?s2 1)) * length (seq \<lparr>seq = [1::cint], cap = 5, ref = 0\<rparr>) \<le> maxElements"
    unfolding n by (simp add: maxElements_def)
  let ?t = "initState (\<lambda>p. 1073741824)"
  let ?t1 = "?t\<lparr>heap := [Live \<lparr>seq = [1, 1], cap = 5, ref = 0\<rparr>]\<rparr>"
  let ?t2 = "?t\<lparr>heap := [Live \<lparr>seq = [1, 1], cap = 5, ref = 0\<rparr>, Live \<lparr>seq = [2], cap = 5, ref = 0\<rparr>]\<rparr>"
  have k1: "eval (SequenceInitializer [LiteralInt 1, LiteralInt 1]) ?t = Inr (SeqV 0, ?t1)"
    by (simp add: initState_def makeSequence_def modifyE_def deref_def bindE_def appendInt_def
          INIT_CAP_def)
  have k2: "eval (SequenceInitializer [LiteralInt 2]) ?t1 = Inr (SeqV 1, ?t2)"
    by (simp add: initState_def makeSequence_def modifyE_def deref_def bindE_def appendInt_def
          INIT_CAP_def)
  have k3: "deref ?t2 0 = Inr \<lparr>seq = [1, 1], cap = 5, ref = 0\<rparr>"
    by (simp add: deref_def initState_def)
  have k4: "0 \<le> ref \<lparr>seq = [1, 1], cap = 5, ref = 0\<rparr>"
    by simp
  have o: "maxElements < nat (sint (ptr_ival ?t2 1)) * length (seq \<lparr>seq = [1::cint, 1], cap = 5, ref = 0\<rparr>)"
    by (simp add: initState_def maxElements_def)
  from eval_Mul_Seq_Seq [OF k1 k2 k3 k4] o
  have u: "eval (Mul (SequenceInitializer [LiteralInt 1, LiteralInt 1]) (SequenceInitializer [LiteralInt 2])) ?t
             = Inl UndefinedBehaviour"
    by blast
  note th = eval_Mul_Seq_Seq [OF h1 h2 h3 h4]
  from th have nm: "?m \<noteq> Inl TypeMismatch"
    by blast
  from th b obtain s' q where r:
      "?m = Inr (SeqV (length (heap ?s2)), s')"
      "deref s' (length (heap ?s2)) = Inr q"
      "seq q = concat (replicate (nat (sint (ptr_ival ?s2 1)))
                 (seq \<lparr>seq = [1], cap = 5, ref = 0\<rparr>))"
    by blast
  show ?thesis
  proof (intro conjI exI)
    show "eval (SequenceInitializer [LiteralInt 1]) ?s = Inr (SeqV 0, ?s1)"
      by (rule h1)
    show "eval (SequenceInitializer [LiteralInt 2]) ?s1 = Inr (SeqV 1, ?s2)"
      by (rule h2)
    show "?m \<noteq> Inl TypeMismatch"
      by (rule nm)
    show "?m = Inr (SeqV 2, s')"
      using r(1) unfolding l .
    show "deref s' 2 = Inr q"
      using r(2) unfolding l .
    show "seq q = [1, 1, 1]"
      using r(3) unfolding n c .
    show "eval (Mul (SequenceInitializer [LiteralInt 1, LiteralInt 1]) (SequenceInitializer [LiteralInt 2])) ?t
            = Inl UndefinedBehaviour"
      by (rule u)
  qed
qed

subsection \<open>Indexed assignment\<close>

text \<open>
  C3. The claim: in \<open>name[idx] = rhs;\<close> the right-hand side must be an \<open>Int\<close>, and
  \<open>Type mismatch\<close> is reported otherwise. \<open>executeAssignment\<close> checks the index and the
  variable but never the right-hand side: when it evaluates to a sequence, the
  statement succeeds and stores the int that the sequence's pointer reads as.
\<close>

theorem executeAssignment_index_Seq_rhs:
  assumes "eval expr s = Inr (SeqV p, s1)" and "eval ie s1 = Inr (IntV i, s2)"
    and "lookupVariable (env s2) name = SeqV a" and "deref s2 a = Inr q"
    and "0 \<le> sint i" and "sint i < int (length (seq q))"
  shows "executeAssignment name (Some ie) expr s =
           Inr (s2\<lparr>heap := (heap s2)[a := Live (q\<lparr>seq := (seq q)[nat (sint i) := ptr_ival s2 p]\<rparr>)]\<rparr>)"
  using assms
  by (simp add: executeAssignment_def failWith_def bindE_def modify_def)

theorem executeAssignment_index_Seq_rhs_witness:
  "eval (Variable ''a'')
     \<lparr>env = \<lparr>vlist = [(''a'', SeqV 0)], capacity = 5\<rparr>,
      heap = [Live \<lparr>seq = [1], cap = 5, ref = 1\<rparr>], ptr_ival = (\<lambda>p. 7), stdout = []\<rparr>
     = Inr (SeqV 0, \<lparr>env = \<lparr>vlist = [(''a'', SeqV 0)], capacity = 5\<rparr>,
      heap = [Live \<lparr>seq = [1], cap = 5, ref = 1\<rparr>], ptr_ival = (\<lambda>p. 7), stdout = []\<rparr>) \<and>
   executeAssignment ''a'' (Some (LiteralInt 0)) (Variable ''a'')
     \<lparr>env = \<lparr>vlist = [(''a'', SeqV 0)], capacity = 5\<rparr>,
      heap = [Live \<lparr>seq = [1], cap = 5, ref = 1\<rparr>], ptr_ival = (\<lambda>p. 7), stdout = []\<rparr>
     = Inr \<lparr>env = \<lparr>vlist = [(''a'', SeqV 0)], capacity = 5\<rparr>,
      heap = [Live \<lparr>seq = [7], cap = 5, ref = 1\<rparr>], ptr_ival = (\<lambda>p. 7), stdout = []\<rparr>"
proof -
  let ?s = "\<lparr>env = \<lparr>vlist = [(''a'', SeqV 0)], capacity = 5\<rparr>,
      heap = [Live \<lparr>seq = [1], cap = 5, ref = 1\<rparr>], ptr_ival = (\<lambda>p. 7::cint), stdout = []\<rparr>"
  have h1: "eval (Variable ''a'') ?s = Inr (SeqV 0, ?s)"
    by (simp add: evalVariable_def lookupVariable_def)
  have h2: "eval (LiteralInt 0) ?s = Inr (IntV 0, ?s)"
    by simp
  have h3: "lookupVariable (env ?s) ''a'' = SeqV 0"
    by (simp add: lookupVariable_def)
  have h4: "deref ?s 0 = Inr \<lparr>seq = [1], cap = 5, ref = 1\<rparr>"
    by (simp add: deref_def)
  have h5: "0 \<le> sint (0::cint)"
      "sint (0::cint) < int (length (seq \<lparr>seq = [1], cap = 5, ref = 1\<rparr>))"
    by simp_all
  show ?thesis
    using h1 executeAssignment_index_Seq_rhs [OF h1 h2 h3 h4 h5]
    by simp
qed

subsection \<open>Comparing sequences\<close>

lemma seqLess_lexord:
  "seqLess xs ys = (if (xs, ys) \<in> lexord {(x, y). x <s y} then 1 else 0)"
proof (induction xs ys rule: seqLess.induct)
  case (1 x xs y ys)
  then show ?case
    using signed.less_asym [of x y] signed.less_linear [of x y] by auto
next
  case (2 y ys)
  then show ?case by simp
next
  case (3 xs)
  then show ?case by simp
qed

lemma seqEqualsLoop_eq:
  "length xs = length ys \<Longrightarrow> seqEqualsLoop xs ys = (if xs = ys then 1 else 0)"
  by (induction xs ys rule: seqEqualsLoop.induct) auto

lemma lexord_sless_trichotomy:
  fixes xs ys :: "cint list"
  defines "r \<equiv> {(x, y). x <s y}"
  shows "((xs, ys) \<in> lexord r \<or> xs = ys \<or> (ys, xs) \<in> lexord r) \<and>
         \<not> ((xs, ys) \<in> lexord r \<and> xs = ys) \<and>
         \<not> ((xs, ys) \<in> lexord r \<and> (ys, xs) \<in> lexord r) \<and>
         \<not> (xs = ys \<and> (ys, xs) \<in> lexord r)"
proof -
  have lin: "\<forall>a b. (a, b) \<in> r \<or> a = b \<or> (b, a) \<in> r"
    unfolding r_def using signed.less_linear by auto
  have irr: "\<forall>x. (x, x) \<notin> r"
    unfolding r_def by simp
  have asy: "asym r"
    unfolding r_def by (auto intro!: asymI dest: signed.less_asym)
  show ?thesis
    using lexord_linear [OF lin, of xs ys] lexord_irreflexive [OF irr]
      lexord_asymmetric [OF asy, of xs ys]
    by blast
qed

lemma evalLess_Seq_Seq:
  assumes "deref s a = Inr qa" and "deref s b = Inr qb"
  shows "evalLess (SeqV a) (SeqV b) s =
           Inr (IntV (if (seq qa, seq qb) \<in> lexord {(x, y). x <s y} then 1 else 0), s)"
  using assms by (simp add: evalLess_def bindE_def seqLess_lexord)

lemma evalEquals_Seq_Seq:
  assumes "deref s a = Inr qa" and "deref s b = Inr qb"
  shows "evalEquals (SeqV a) (SeqV b) s = Inr (IntV (if seq qa = seq qb then 1 else 0), s)"
  using assms by (auto simp: evalEquals_def bindE_def seqEqualsLoop_eq)

text \<open>
  C6. Let \<open>e1\<close> and \<open>e2\<close> evaluate to live sequences with the elements \<open>xs\<close> and
  \<open>ys\<close>, in either order of evaluation. Then \<open>e1 < e2\<close> evaluates to \<open>Int 1\<close> if
  \<open>xs\<close> is before \<open>ys\<close> in the lexicographic order of the signed order of ints
  (\<open>lexord\<close>: \<open>xs\<close> is a strict prefix of \<open>ys\<close>, or at the first index where they differ
  the element of \<open>xs\<close> is smaller) and to \<open>Int 0\<close> otherwise; \<open>e1 == e2\<close> evaluates to
  \<open>Int 1\<close> if the lists are equal and to \<open>Int 0\<close> otherwise; and exactly one of
  \<open>e1 < e2\<close>, \<open>e1 == e2\<close>, \<open>e2 < e1\<close> evaluates to \<open>Int 1\<close>. The comparison itself
  leaves the state as the evaluation of the operands left it.
\<close>

theorem eval_Less_lexicographic_total:
  assumes "eval e1 s = Inr (SeqV a, s1)" and "eval e2 s1 = Inr (SeqV b, s2)"
    and "deref s2 a = Inr qa" and "deref s2 b = Inr qb"
    and "eval e2 s = Inr (SeqV b', t1)" and "eval e1 t1 = Inr (SeqV a', t2)"
    and "deref t2 a' = Inr qa'" and "deref t2 b' = Inr qb'"
    and "seq qa' = seq qa" and "seq qb' = seq qb"
  shows "eval (Less e1 e2) s =
           Inr (IntV (if (seq qa, seq qb) \<in> lexord {(x, y). x <s y} then 1 else 0), s2) \<and>
         eval (Equals e1 e2) s = Inr (IntV (if seq qa = seq qb then 1 else 0), s2) \<and>
         eval (Less e2 e1) s =
           Inr (IntV (if (seq qb, seq qa) \<in> lexord {(x, y). x <s y} then 1 else 0), t2) \<and>
         (let L = (eval (Less e1 e2) s = Inr (IntV 1, s2));
              E = (eval (Equals e1 e2) s = Inr (IntV 1, s2));
              G = (eval (Less e2 e1) s = Inr (IntV 1, t2))
          in (L \<or> E \<or> G) \<and> \<not> (L \<and> E) \<and> \<not> (L \<and> G) \<and> \<not> (E \<and> G))"
proof -
  have l: "eval (Less e1 e2) s =
           Inr (IntV (if (seq qa, seq qb) \<in> lexord {(x, y). x <s y} then 1 else 0), s2)"
    using assms(1,2) evalLess_Seq_Seq [OF assms(3,4)] by (simp add: bindE_def)
  have e: "eval (Equals e1 e2) s = Inr (IntV (if seq qa = seq qb then 1 else 0), s2)"
    using assms(1,2) evalEquals_Seq_Seq [OF assms(3,4)] by (simp add: bindE_def)
  have g: "eval (Less e2 e1) s =
           Inr (IntV (if (seq qb, seq qa) \<in> lexord {(x, y). x <s y} then 1 else 0), t2)"
    using assms(5,6) evalLess_Seq_Seq [OF assms(8,7)] assms(9,10) by (simp add: bindE_def)
  show ?thesis
    unfolding l g e Let_def using lexord_sless_trichotomy [of "seq qa" "seq qb"]
    by auto
qed

theorem eval_Less_lexicographic_total_witness:
  "eval (SequenceInitializer [LiteralInt 1, LiteralInt 2]) (initState example_ptr_ival) =
     Inr (SeqV 0, (initState example_ptr_ival)\<lparr>heap := [Live \<lparr>seq = [1, 2], cap = 5, ref = 0\<rparr>]\<rparr>) \<and>
   eval (SequenceInitializer [LiteralInt 1, LiteralInt 3])
       ((initState example_ptr_ival)\<lparr>heap := [Live \<lparr>seq = [1, 2], cap = 5, ref = 0\<rparr>]\<rparr>) =
     Inr (SeqV 1, (initState example_ptr_ival)\<lparr>heap := [Live \<lparr>seq = [1, 2], cap = 5, ref = 0\<rparr>,
                                                          Live \<lparr>seq = [1, 3], cap = 5, ref = 0\<rparr>]\<rparr>) \<and>
   eval (Less (SequenceInitializer [LiteralInt 1, LiteralInt 2])
              (SequenceInitializer [LiteralInt 1, LiteralInt 3])) (initState example_ptr_ival) =
     Inr (IntV 1, (initState example_ptr_ival)\<lparr>heap := [Live \<lparr>seq = [1, 2], cap = 5, ref = 0\<rparr>,
                                                          Live \<lparr>seq = [1, 3], cap = 5, ref = 0\<rparr>]\<rparr>) \<and>
   eval (Equals (SequenceInitializer [LiteralInt 1, LiteralInt 2])
                (SequenceInitializer [LiteralInt 1, LiteralInt 3])) (initState example_ptr_ival) =
     Inr (IntV 0, (initState example_ptr_ival)\<lparr>heap := [Live \<lparr>seq = [1, 2], cap = 5, ref = 0\<rparr>,
                                                          Live \<lparr>seq = [1, 3], cap = 5, ref = 0\<rparr>]\<rparr>) \<and>
   eval (Less (SequenceInitializer [LiteralInt 1, LiteralInt 3])
              (SequenceInitializer [LiteralInt 1, LiteralInt 2])) (initState example_ptr_ival) =
     Inr (IntV 0, (initState example_ptr_ival)\<lparr>heap := [Live \<lparr>seq = [1, 3], cap = 5, ref = 0\<rparr>,
                                                          Live \<lparr>seq = [1, 2], cap = 5, ref = 0\<rparr>]\<rparr>)"
proof -
  let ?s = "initState example_ptr_ival"
  let ?qa = "\<lparr>seq = [1, 2::cint], cap = 5, ref = 0\<rparr>"
  let ?qb = "\<lparr>seq = [1, 3::cint], cap = 5, ref = 0\<rparr>"
  let ?s1 = "?s\<lparr>heap := [Live ?qa]\<rparr>"
  let ?s2 = "?s\<lparr>heap := [Live ?qa, Live ?qb]\<rparr>"
  let ?t1 = "?s\<lparr>heap := [Live ?qb]\<rparr>"
  let ?t2 = "?s\<lparr>heap := [Live ?qb, Live ?qa]\<rparr>"
  let ?e1 = "SequenceInitializer [LiteralInt 1, LiteralInt 2]"
  let ?e2 = "SequenceInitializer [LiteralInt 1, LiteralInt 3]"
  note ev = initState_def makeSequence_def modifyE_def deref_def bindE_def appendInt_def
    INIT_CAP_def
  have h1: "eval ?e1 ?s = Inr (SeqV 0, ?s1)" by (simp add: ev)
  have h2: "eval ?e2 ?s1 = Inr (SeqV 1, ?s2)" by (simp add: ev)
  have h3: "deref ?s2 0 = Inr ?qa" by (simp add: ev)
  have h4: "deref ?s2 1 = Inr ?qb" by (simp add: ev)
  have h5: "eval ?e2 ?s = Inr (SeqV 0, ?t1)" by (simp add: ev)
  have h6: "eval ?e1 ?t1 = Inr (SeqV 1, ?t2)" by (simp add: ev)
  have h7: "deref ?t2 1 = Inr ?qa" by (simp add: ev)
  have h8: "deref ?t2 0 = Inr ?qb" by (simp add: ev)
  have lx: "(seq ?qa, seq ?qb) \<in> lexord {(x, y). x <s y}"
       "(seq ?qb, seq ?qa) \<notin> lexord {(x, y). x <s y}" "seq ?qa \<noteq> seq ?qb"
    by (simp_all add: word_sless_alt)
  from eval_Less_lexicographic_total [OF h1 h2 h3 h4 h5 h6 h7 h8 refl refl]
  have "eval (Less ?e1 ?e2) ?s = Inr (IntV 1, ?s2)"
    and "eval (Equals ?e1 ?e2) ?s = Inr (IntV 0, ?s2)"
    and "eval (Less ?e2 ?e1) ?s = Inr (IntV 0, ?t2)"
    unfolding if_P [OF lx(1)] if_not_P [OF lx(2)] if_not_P [OF lx(3)] by blast+
  then show ?thesis
    using h1 h2 by blast
qed

subsection \<open>Concatenation\<close>

lemma evalAdd_fits:
  assumes "deref s a = Inr qa" and "deref s b = Inr qb" and "0 \<le> ref qa" and "0 \<le> ref qb"
    and "length (seq qa) + length (seq qb) \<le> maxElements"
  shows "\<exists>s' q s''.
           evalAdd (SeqV a) (SeqV b) s = Inr (SeqV (length (heap s)), s') \<and>
           deref s' (length (heap s)) = Inr q \<and>
           seq q = seq qa @ seq qb \<and> ref q = 0 \<and>
           evalLen (SeqV (length (heap s))) s' =
             Inr (IntV (of_nat (length (seq qa) + length (seq qb))), s'')"
proof -
  from assms(1) have a: "a < length (heap s)" "heap s ! a = Live qa"
    by (auto dest: derefD)
  from assms(2) have b: "b < length (heap s)" "heap s ! b = Live qb"
    by (auto dest: derefD)
  let ?new = "\<lparr>seq = [], cap = INIT_CAP, ref = 0\<rparr>"
  from appendAll_fits [OF capacityInv_new, of 0 "seq qa"] assms(5)
  obtain q1 where q1: "appendAll (seq qa) ?new = Inr q1" "seq q1 = seq qa" "ref q1 = 0"
      "capacityInv q1"
    by auto
  from appendAll_fits [OF q1(4), of "seq qb"] assms(5) q1(2)
  obtain q2 where q2: "appendAll (seq qb) q1 = Inr q2" "seq q2 = seq qa @ seq qb" "ref q2 = 0"
    using q1(3) by auto
  note defs = evalAdd_def evalLen_def grabSequence_def modify_def modifyE_def copyElems_def
    releaseSequence_def makeSequence_def freeSequence_def deref_def bindE_def nth_append
  show ?thesis
  proof (cases "a = b")
    case True
    then show ?thesis
      using a b assms(3,4) q1 q2 by (simp add: defs)
  next
    case False
    then show ?thesis
      using a b assms(3,4) q1 q2 by (simp add: defs)
  qed
qed

lemma evalAdd_overflow:
  assumes "deref s a = Inr qa" and "deref s b = Inr qb" and "0 \<le> ref qa" and "0 \<le> ref qb"
    and "maxElements < length (seq qa) + length (seq qb)"
  shows "evalAdd (SeqV a) (SeqV b) s = Inl UndefinedBehaviour"
proof -
  from assms(1) have a: "a < length (heap s)" "heap s ! a = Live qa"
    by (auto dest: derefD)
  from assms(2) have b: "b < length (heap s)" "heap s ! b = Live qb"
    by (auto dest: derefD)
  let ?new = "\<lparr>seq = [], cap = INIT_CAP, ref = 0\<rparr>"
  note defs = evalAdd_def grabSequence_def modify_def modifyE_def copyElems_def
    releaseSequence_def makeSequence_def freeSequence_def deref_def bindE_def nth_append
  show ?thesis
  proof (cases "length (seq qa) \<le> maxElements")
    case False
    then have "appendAll (seq qa) ?new = Inl UndefinedBehaviour"
      by (intro appendAll_overflow [OF capacityInv_new]) simp
    then show ?thesis
      using a b by (cases "a = b") (simp_all add: defs)
  next
    case True
    from appendAll_fits [OF capacityInv_new, of 0 "seq qa"] True
    obtain q1 where q1: "appendAll (seq qa) ?new = Inr q1" "seq q1 = seq qa" "capacityInv q1"
      by auto
    have "appendAll (seq qb) q1 = Inl UndefinedBehaviour"
      using assms(5) q1(2) by (intro appendAll_overflow [OF q1(3)]) simp
    then show ?thesis
      using a b assms(3,4) q1 by (cases "a = b") (simp_all add: defs)
  qed
qed

text \<open>
  C7. The claim: for every two sequences, \<open>a + b\<close> is a new sequence of \<open>a\<close>'s
  elements followed by \<open>b\<close>'s. That holds as long as the result fits a buffer: when
  \<open>e1\<close> and \<open>e2\<close> evaluate to live sequences (reference counts not negative) whose
  lengths together are at most \<open>5 * 2 ^ 28\<close>, \<open>e1 + e2\<close> evaluates to a new sequence,
  at an address that was not in the heap before, whose elements are the left operand's
  followed by the right operand's, with reference count 0, and \<open>len (e1 + e2)\<close>
  evaluates to the sum of the two lengths. Beyond that the doubling of the \<open>int\<close>
  capacity overflows: for a sequence of 700000000 elements bound to \<open>a\<close>, \<open>a + a\<close> is
  undefined.
\<close>

theorem eval_Add_Seq_Seq:
  assumes "eval e1 s = Inr (SeqV a, s1)" and "eval e2 s1 = Inr (SeqV b, s2)"
    and "deref s2 a = Inr qa" and "deref s2 b = Inr qb" and "0 \<le> ref qa" and "0 \<le> ref qb"
    and "length (seq qa) + length (seq qb) \<le> maxElements"
  shows "\<exists>s' q s''.
           eval (Add e1 e2) s = Inr (SeqV (length (heap s2)), s') \<and>
           deref s' (length (heap s2)) = Inr q \<and>
           seq q = seq qa @ seq qb \<and> ref q = 0 \<and>
           eval (LenExpr (Add e1 e2)) s =
             Inr (IntV (of_nat (length (seq qa) + length (seq qb))), s'')"
proof -
  from evalAdd_fits [OF assms(3-7)] obtain s' q s'' where r:
      "evalAdd (SeqV a) (SeqV b) s2 = Inr (SeqV (length (heap s2)), s')"
      "deref s' (length (heap s2)) = Inr q" "seq q = seq qa @ seq qb" "ref q = 0"
      "evalLen (SeqV (length (heap s2))) s' =
         Inr (IntV (of_nat (length (seq qa) + length (seq qb))), s'')"
    by blast
  have e: "eval (Add e1 e2) s = Inr (SeqV (length (heap s2)), s')"
    using assms(1,2) r(1) by (simp add: bindE_def)
  have l: "eval (LenExpr (Add e1 e2)) s =
             Inr (IntV (of_nat (length (seq qa) + length (seq qb))), s'')"
    using e r(5) by (simp add: bindE_def del: eval.simps(2)) 
  show ?thesis
    using e l r(2,3,4) by blast
qed

theorem eval_Add_Seq_Seq_witness:
  "eval (SequenceInitializer [LiteralInt 1, LiteralInt 2]) (initState example_ptr_ival) =
     Inr (SeqV 0, (initState example_ptr_ival)\<lparr>heap := [Live \<lparr>seq = [1, 2], cap = 5, ref = 0\<rparr>]\<rparr>) \<and>
   eval (SequenceInitializer [LiteralInt 3])
       ((initState example_ptr_ival)\<lparr>heap := [Live \<lparr>seq = [1, 2], cap = 5, ref = 0\<rparr>]\<rparr>) =
     Inr (SeqV 1, (initState example_ptr_ival)\<lparr>heap := [Live \<lparr>seq = [1, 2], cap = 5, ref = 0\<rparr>,
                                                          Live \<lparr>seq = [3], cap = 5, ref = 0\<rparr>]\<rparr>) \<and>
   (\<exists>s' q s''.
      eval (Add (SequenceInitializer [LiteralInt 1, LiteralInt 2]) (SequenceInitializer [LiteralInt 3]))
        (initState example_ptr_ival) = Inr (SeqV 2, s') \<and>
      deref s' 2 = Inr q \<and> seq q = [1, 2, 3] \<and> ref q = 0 \<and>
      eval (LenExpr (Add (SequenceInitializer [LiteralInt 1, LiteralInt 2])
                         (SequenceInitializer [LiteralInt 3])))
        (initState example_ptr_ival) = Inr (IntV 3, s''))"
proof -
  let ?s = "initState example_ptr_ival"
  let ?s1 = "?s\<lparr>heap := [Live \<lparr>seq = [1, 2], cap = 5, ref = 0\<rparr>]\<rparr>"
  let ?s2 = "?s\<lparr>heap := [Live \<lparr>seq = [1, 2], cap = 5, ref = 0\<rparr>, Live \<lparr>seq = [3], cap = 5, ref = 0\<rparr>]\<rparr>"
  let ?e1 = "SequenceInitializer [LiteralInt 1, LiteralInt 2]"
  let ?e2 = "SequenceInitializer [LiteralInt 3]"
  have h1: "eval ?e1 ?s = Inr (SeqV 0, ?s1)"
    by (simp add: initState_def makeSequence_def modifyE_def deref_def bindE_def appendInt_def
          INIT_CAP_def)
  have h2: "eval ?e2 ?s1 = Inr (SeqV 1, ?s2)"
    by (simp add: initState_def makeSequence_def modifyE_def deref_def bindE_def appendInt_def
          INIT_CAP_def)
  have h3: "deref ?s2 0 = Inr \<lparr>seq = [1, 2], cap = 5, ref = 0\<rparr>"
    by (simp add: deref_def initState_def)
  have h4: "deref ?s2 1 = Inr \<lparr>seq = [3], cap = 5, ref = 0\<rparr>"
    by (simp add: deref_def initState_def)
  have h5: "0 \<le> ref \<lparr>seq = [1, 2::cint], cap = 5, ref = 0\<rparr>"
    and h6: "0 \<le> ref \<lparr>seq = [3::cint], cap = 5, ref = 0\<rparr>"
    by simp_all
  have h7: "length (seq \<lparr>seq = [1, 2::cint], cap = 5, ref = 0\<rparr>) +
            length (seq \<lparr>seq = [3::cint], cap = 5, ref = 0\<rparr>) \<le> maxElements"
    by (simp add: maxElements_def)
  have l: "length (heap ?s2) = 2"
    by (simp add: initState_def)
  from eval_Add_Seq_Seq [OF h1 h2 h3 h4 h5 h6 h7] obtain s' q s'' where r:
      "eval (Add ?e1 ?e2) ?s = Inr (SeqV (length (heap ?s2)), s')"
      "deref s' (length (heap ?s2)) = Inr q"
      "seq q = seq \<lparr>seq = [1, 2::cint], cap = 5, ref = 0\<rparr> @ seq \<lparr>seq = [3::cint], cap = 5, ref = 0\<rparr>"
      "ref q = 0"
      "eval (LenExpr (Add ?e1 ?e2)) ?s =
         Inr (IntV (of_nat (length (seq \<lparr>seq = [1, 2::cint], cap = 5, ref = 0\<rparr>) +
                            length (seq \<lparr>seq = [3::cint], cap = 5, ref = 0\<rparr>))), s'')"
    by blast
  have sq: "seq q = [1, 2, 3]"
    using r(3) by simp
  have n: "(of_nat (length (seq \<lparr>seq = [1, 2::cint], cap = 5, ref = 0\<rparr>) +
                    length (seq \<lparr>seq = [3::cint], cap = 5, ref = 0\<rparr>)) :: cint) = 3"
    by simp
  show ?thesis
  proof (intro conjI exI)
    show "eval ?e1 ?s = Inr (SeqV 0, ?s1)" by (rule h1)
    show "eval ?e2 ?s1 = Inr (SeqV 1, ?s2)" by (rule h2)
    show "eval (Add ?e1 ?e2) ?s = Inr (SeqV 2, s')" using r(1) unfolding l .
    show "deref s' 2 = Inr q" using r(2) unfolding l .
    show "seq q = [1, 2, 3]" by (rule sq)
    show "ref q = 0" by (rule r(4))
    show "eval (LenExpr (Add ?e1 ?e2)) ?s = Inr (IntV 3, s'')" using r(5) unfolding n .
  qed
qed

theorem add_past_capacity_undefined:
  "eval (Add (Variable ''a'') (Variable ''a''))
     \<lparr>env = \<lparr>vlist = [(''a'', SeqV 0)], capacity = 5\<rparr>,
      heap = [Live \<lparr>seq = replicate 700000000 0, cap = 1342177280, ref = 1\<rparr>],
      ptr_ival = example_ptr_ival, stdout = []\<rparr> = Inl UndefinedBehaviour"
proof -
  let ?q = "\<lparr>seq = replicate 700000000 (0::cint), cap = 1342177280, ref = 1\<rparr>"
  let ?s = "\<lparr>env = \<lparr>vlist = [(''a'', SeqV 0)], capacity = 5\<rparr>,
      heap = [Live ?q], ptr_ival = example_ptr_ival, stdout = []\<rparr>"
  have d: "deref ?s 0 = Inr ?q"
    by (simp add: deref_def)
  have r: "0 \<le> ref ?q"
    by (simp)
  have n: "maxElements < length (seq ?q) + length (seq ?q)"
    by (simp add: maxElements_def)
  have "eval (Add (Variable ''a'') (Variable ''a'')) ?s = evalAdd (SeqV 0) (SeqV 0) ?s"
    by (simp add: bindE_def evalVariable_def lookupVariable_def)
  then show ?thesis
    using evalAdd_overflow [OF d d r r n] by (simp only:)
qed

subsection \<open>Reading variables\<close>

text \<open>
  C8. Looking up a name that has no record in the environment returns \<open>Int 0\<close>, and
  evaluating the variable succeeds with that value: it is not an error.
\<close>

theorem lookupVariable_unknown:
  assumes "name \<notin> fst ` set (vlist (env s))"
  shows "lookupVariable (env s) name = IntV 0 \<and> eval (Variable name) s = Inr (IntV 0, s)"
proof -
  have "n \<notin> fst ` set vs \<Longrightarrow> lookupVariable_loop vs n = IntV 0" for vs n
    by (induction vs n rule: lookupVariable_loop.induct) auto
  then show ?thesis
    using assms by (simp add: lookupVariable_def evalVariable_def)
qed

theorem lookupVariable_unknown_witness:
  "''y'' \<notin> fst ` set (vlist (env ((initState (\<lambda>p. 0))
       \<lparr>env := \<lparr>vlist = [(''x'', IntV 4)], capacity = 5\<rparr>\<rparr>))) \<and>
   lookupVariable (env ((initState (\<lambda>p. 0))
       \<lparr>env := \<lparr>vlist = [(''x'', IntV 4)], capacity = 5\<rparr>\<rparr>)) ''y'' = IntV 0 \<and>
   eval (Variable ''y'') ((initState (\<lambda>p. 0))\<lparr>env := \<lparr>vlist = [(''x'', IntV 4)], capacity = 5\<rparr>\<rparr>) =
     Inr (IntV 0, (initState (\<lambda>p. 0))\<lparr>env := \<lparr>vlist = [(''x'', IntV 4)], capacity = 5\<rparr>\<rparr>)"
proof -
  let ?s = "(initState (\<lambda>p. 0))\<lparr>env := \<lparr>vlist = [(''x'', IntV 4)], capacity = 5\<rparr>\<rparr>"
  have h: "''y'' \<notin> fst ` set (vlist (env ?s))"
    by simp
  show ?thesis
    using h lookupVariable_unknown [OF h] by blast
qed

text \<open>
  Evaluation does change the state in general: a sequence initializer allocates a block.
\<close>

lemma eval_SequenceInitializer_allocates:
  "\<exists>s'. eval (SequenceInitializer []) s = Inr (SeqV (length (heap s)), s') \<and>
        length (heap s') = Suc (length (heap s))"
  by (simp add: makeSequence_def bindE_def)

text \<open>
  C10. Evaluating a variable returns the value the lookup finds and the state it was
  given: the environment (its records and its capacity), every block of the heap with
  its reference count, and the output are unchanged, whether the name is bound or not.
\<close>

theorem eval_Variable_frame:
  "eval (Variable name) s = Inr (lookupVariable (env s) name, s)"
  by (simp add: evalVariable_def)

section \<open>Properties of the tokenizer and the parser\<close>

subsection \<open>Reading tokens from symbolic input\<close>

lemma readWhile_takeWhile:
  "length token + length (takeWhile P cs) \<le> MAX_TOKEN \<Longrightarrow>
   readWhile P cs token line = Inr (token @ takeWhile P cs, dropWhile P cs)"
  by (induction cs arbitrary: token) (auto simp: addToToken_def bindE_def)

lemma skipSpace_nonspace:
  "\<not> isspace c \<Longrightarrow> c \<noteq> CHR ''#'' \<Longrightarrow>
   skipSpace \<lparr>fp = c # cs, lineCount = l\<rparr> = (Some c, \<lparr>fp = cs, lineCount = l\<rparr>)"
  by (simp add: skipSpace.simps)










lemma readWhile_overflow:
  "length token \<le> MAX_TOKEN \<Longrightarrow> MAX_TOKEN < length token + length (takeWhile P cs) \<Longrightarrow>
   readWhile P cs token line = Inl (TokenTooLong line)"
proof (induction cs arbitrary: token)
  case Nil
  then show ?case by simp
next
  case (Cons c cs)
  then have p: "P c"
    by (auto split: if_splits)
  show ?case
  proof (cases "length token \<ge> MAX_TOKEN")
    case True
    then show ?thesis using p by (simp add: addToToken_def bindE_def)
  next
    case False
    then have "readWhile P cs (token @ [c]) line = Inl (TokenTooLong line)"
      using Cons.prems p by (intro Cons.IH) simp_all
    then show ?thesis
      using p False by (simp add: addToToken_def bindE_def)
  qed
qed

lemma parseToken_minus_digit:
  assumes "isdigit d" and "length (takeWhile isdigit (d # rest)) < MAX_TOKEN"
  shows "parseToken \<lparr>fp = CHR ''-'' # d # rest, lineCount = l\<rparr> =
           Inr (Some (CHR ''-'' # takeWhile isdigit (d # rest)),
                \<lparr>fp = dropWhile isdigit (d # rest), lineCount = l\<rparr>)"
proof -
  have s: "skipSpace \<lparr>fp = CHR ''-'' # d # rest, lineCount = l\<rparr> =
             (Some (CHR ''-''), \<lparr>fp = d # rest, lineCount = l\<rparr>)"
    by (rule skipSpace_nonspace) (simp_all add: isspace_def)
  have r: "readWhile isdigit (d # rest) [CHR ''-''] l =
             Inr ([CHR ''-''] @ takeWhile isdigit (d # rest), dropWhile isdigit (d # rest))"
    using assms(2) by (intro readWhile_takeWhile) simp
  show ?thesis
    unfolding parseToken_def s using r by (simp add: isalpha_def bindE_def)
qed

subsection \<open>Running whole programs\<close>

text \<open>
  The facts that unfold a run of \<open>main\<close> on a concrete program text, and the recursion
  budgets written with \<open>Suc\<close> so that the equations of the parser and of \<open>execute\<close>
  apply.
\<close>

lemmas run_simps = main_def initState_def parseToken_def skipSpace.simps bindE_def failWith_def
  isspace_def isalpha_def isdigit_def isalnum_def
  isInfixOperator_def isIdentifier_def expectToken_def requireToken_def addToToken_def
  MAX_TOKEN_def MAX_VAR_NAME_def tokAt_def sscanf_d_def digitsValue_def ungetc_def
  SINGLE_QUOTE_LENGTH_def freeEnvironment_def makeEnvironment_def INIT_CAP_def DOUBLE_CAP_def
  written_def exit_status_def

lemma fuel4: "4 \<le> (n::nat) \<Longrightarrow> \<exists>k. n = Suc (Suc (Suc (Suc k)))"
proof -
  assume "4 \<le> n"
  then obtain k where "n = 4 + k" by (metis le_Suc_ex)
  then show ?thesis by (intro exI [of _ k]) simp
qed

lemma fuel12:
  "12 \<le> (n::nat) \<Longrightarrow>
   \<exists>k. n = Suc (Suc (Suc (Suc (Suc (Suc (Suc (Suc (Suc (Suc (Suc (Suc k)))))))))))"
proof -
  assume "12 \<le> n"
  then obtain k where "n = 12 + k" by (metis le_Suc_ex)
  then show ?thesis by (intro exI [of _ k]) simp
qed

subsection \<open>Flat precedence\<close>



subsection \<open>A minus sign before a digit\<close>

text \<open>
  C9. The claim: wherever a \<open>-\<close> is followed at once by a digit, the sign and the
  digits are one token, and a subtraction written that way is a syntax error. That
  holds as long as the token fits the buffer of \<open>MAX_TOKEN\<close> characters: where a token
  starts with \<open>-\<close> and a digit follows, and the sign and the digits are at most 1023
  characters, the tokenizer reads them as one token; after an operand the expression
  loop then sees a token that is neither an infix operator nor a terminator, and
  reports a syntax error on the current line: \<open>print 5-3;\<close> stops with
  \<open>line 1: syntax error\<close> and has printed nothing. A \<open>-\<close> followed by 1023 digits is
  neither one token nor a syntax error: the tokenizer stops with \<open>token too long\<close>.
\<close>

theorem minus_digit_is_one_token:
  assumes "isdigit d" and "length (takeWhile isdigit (d # rest)) < MAX_TOKEN"
  shows "parseToken \<lparr>fp = CHR ''-'' # d # rest, lineCount = l\<rparr> =
           Inr (Some (CHR ''-'' # takeWhile isdigit (d # rest)),
                \<lparr>fp = dropWhile isdigit (d # rest), lineCount = l\<rparr>) \<and>
         parseExpr_loop (Suc n) left \<lparr>fp = CHR ''-'' # d # rest, lineCount = l\<rparr> =
           Inl (SyntaxError l) \<and>
         (\<forall>fuel pv. 4 \<le> fuel \<longrightarrow> main fuel pv ''print 5-3;'' = Inl (SyntaxError 1, []))"
proof (intro conjI allI impI)
  show t: "parseToken \<lparr>fp = CHR ''-'' # d # rest, lineCount = l\<rparr> =
           Inr (Some (CHR ''-'' # takeWhile isdigit (d # rest)),
                \<lparr>fp = dropWhile isdigit (d # rest), lineCount = l\<rparr>)"
    by (rule parseToken_minus_digit [OF assms])
  show "parseExpr_loop (Suc n) left \<lparr>fp = CHR ''-'' # d # rest, lineCount = l\<rparr> =
           Inl (SyntaxError l)"
    unfolding parseExpr_loop.simps expectToken_def t
    using assms(1) by (simp add: bindE_def isInfixOperator_def)
next
  fix fuel :: nat and pv :: "nat \<Rightarrow> cint"
  assume "4 \<le> fuel"
  from fuel4 [OF this] obtain k where f: "fuel = Suc (Suc (Suc (Suc k)))"
    by blast
  show "main fuel pv ''print 5-3;'' = Inl (SyntaxError 1, [])"
    unfolding f by (simp add: run_simps)
qed

theorem minus_digit_is_one_token_witness:
  "isdigit (CHR ''3'') \<and> length (takeWhile isdigit ''3;'') < MAX_TOKEN \<and>
   parseToken \<lparr>fp = ''-3;'', lineCount = 1\<rparr> = Inr (Some ''-3'', \<lparr>fp = '';'', lineCount = 1\<rparr>) \<and>
   parseExpr_loop 1 (LiteralInt 5) \<lparr>fp = ''-3;'', lineCount = 1\<rparr> = Inl (SyntaxError 1) \<and>
   main 4 example_ptr_ival ''print 5-3;'' = Inl (SyntaxError 1, [])"
proof -
  have d: "isdigit (CHR ''3'')"
    by (simp add: isdigit_def)
  have n: "length (takeWhile isdigit (CHR ''3'' # '';'')) < MAX_TOKEN"
    by (simp add: isdigit_def MAX_TOKEN_def)
  have tw: "takeWhile isdigit ''3;'' = ''3''" and dw: "dropWhile isdigit ''3;'' = '';''"
    by (simp_all add: isdigit_def)
  from minus_digit_is_one_token [OF d n, of 1 0 "LiteralInt 5"]
  have "parseToken \<lparr>fp = ''-3;'', lineCount = 1\<rparr> = Inr (Some ''-3'', \<lparr>fp = '';'', lineCount = 1\<rparr>)"
    and "parseExpr_loop 1 (LiteralInt 5) \<lparr>fp = ''-3;'', lineCount = 1\<rparr> = Inl (SyntaxError 1)"
    and "main 4 example_ptr_ival ''print 5-3;'' = Inl (SyntaxError 1, [])"
    unfolding tw dw by simp_all
  then show ?thesis
    using d n by simp
qed

theorem minus_and_1023_digits_too_long:
  "parseToken \<lparr>fp = CHR ''-'' # replicate 1023 (CHR ''7''), lineCount = 1\<rparr> =
     Inl (TokenTooLong 1) \<and>
   parseExpr_loop 1 (LiteralInt 5) \<lparr>fp = CHR ''-'' # replicate 1023 (CHR ''7''), lineCount = 1\<rparr> =
     Inl (TokenTooLong 1)"
proof -
  let ?i = "\<lparr>fp = CHR ''-'' # replicate 1023 (CHR ''7''), lineCount = 1\<rparr>"
  have s: "skipSpace ?i = (Some (CHR ''-''), \<lparr>fp = replicate 1023 (CHR ''7''), lineCount = 1\<rparr>)"
    by (rule skipSpace_nonspace) (simp_all add: isspace_def)
  have d: "isdigit (CHR ''7'')"
    by (simp add: isdigit_def)
  have r: "readWhile isdigit (replicate 1023 (CHR ''7'')) [CHR ''-''] 1 = Inl (TokenTooLong 1)"
    using d by (intro readWhile_overflow) (simp_all add: MAX_TOKEN_def)
  have t: "parseToken ?i = Inl (TokenTooLong 1)"
    unfolding parseToken_def s using r by (simp add: isalpha_def bindE_def)
  have "parseExpr_loop (Suc 0) (LiteralInt 5) ?i = Inl (TokenTooLong 1)"
    unfolding parseExpr_loop.simps expectToken_def t by (simp add: bindE_def)
  then show ?thesis
    using t by simp
qed

subsection \<open>The program \<open>print 2 + 3 * 4;\<close>\<close>

lemma run_flat_product:
  assumes "12 \<le> fuel"
  shows "main fuel pv ''print 2 + 3 * 4;'' = Inr ((initState pv)\<lparr>stdout := ''20''\<rparr>)"
proof -
  from fuel12 [OF assms] obtain k where
    f: "fuel = Suc (Suc (Suc (Suc (Suc (Suc (Suc (Suc (Suc (Suc (Suc (Suc k)))))))))))"
    by blast
  show ?thesis
    unfolding f
    by (simp add: run_simps evalAdd_def evalMul_def executePrint_def printf_d_def digits10.simps)
qed

text \<open>
  C1. The claim: the program \<open>print 2 + 3 * 4;\<close> writes \<open>14\<close> and exits with
  status 0. With the flat precedence of \<open>parseExpr\<close> the expression is
  \<open>(2 + 3) * 4\<close>: the program writes \<open>20\<close> and exits with status 0, for every budget
  from 12 on.
\<close>

theorem print_2_plus_3_times_4:
  assumes "12 \<le> fuel"
  shows "written (main fuel pv ''print 2 + 3 * 4;'') = ''20'' \<and>
         exit_status (main fuel pv ''print 2 + 3 * 4;'') = 0"
  by (simp add: run_flat_product [OF assms] written_def exit_status_def)

theorem print_2_plus_3_times_4_witness:
  "(12::nat) \<le> 12 \<and>
   written (main 12 example_ptr_ival ''print 2 + 3 * 4;'') = ''20'' \<and>
   exit_status (main 12 example_ptr_ival ''print 2 + 3 * 4;'') = 0"
proof -
  have h: "(12::nat) \<le> 12"
    by simp
  show ?thesis
    using h print_2_plus_3_times_4 [OF h, of example_ptr_ival] by blast
qed

theorem print_2_plus_3_times_4_not_14:
  "written (main 12 example_ptr_ival ''print 2 + 3 * 4;'') \<noteq> ''14''"
  by (simp add: run_flat_product [of 12 example_ptr_ival] written_def)

subsection \<open>Sequences that are never freed\<close>

lemma run_compare_literals:
  assumes "12 \<le> fuel"
  shows "main fuel pv ''print [1] == [1];'' =
           Inr ((initState pv)\<lparr>heap := [Live \<lparr>seq = [1], cap = 5, ref = 0\<rparr>,
                                       Live \<lparr>seq = [1], cap = 5, ref = 0\<rparr>],
                              stdout := ''1''\<rparr>)"
proof -
  from fuel12 [OF assms] obtain k where
    f: "fuel = Suc (Suc (Suc (Suc (Suc (Suc (Suc (Suc (Suc (Suc (Suc (Suc k)))))))))))"
    by blast
  show ?thesis
    unfolding f
    by (simp add: run_simps evalEquals_def executePrint_def printf_d_def digits10.simps
         makeSequence_def modifyE_def deref_def appendInt_def INT_MAX_def)
qed

text \<open>
  C4. The claim: after a run that ends normally, every sequence created has been
  freed. \<open>evalEquals\<close> and \<open>evalLess\<close> neither grab nor release their operands:
  whenever they return, the state is the one they were given, so an operand that no
  variable holds stays allocated. \<open>print [1] == [1];\<close> writes \<open>1\<close>, exits with
  status 0, and leaves both sequences live in the heap.
\<close>

theorem equals_operands_never_freed:
  assumes "12 \<le> fuel"
  shows "(\<forall>v1 v2 s r s'. evalEquals v1 v2 s = Inr (r, s') \<longrightarrow> s' = s) \<and>
         (\<forall>v1 v2 s r s'. evalLess v1 v2 s = Inr (r, s') \<longrightarrow> s' = s) \<and>
         (\<exists>s. main fuel pv ''print [1] == [1];'' = Inr s \<and> stdout s = ''1'' \<and>
              heap s = [Live \<lparr>seq = [1], cap = 5, ref = 0\<rparr>,
                        Live \<lparr>seq = [1], cap = 5, ref = 0\<rparr>])"
proof (intro conjI allI impI)
  fix v1 v2 s r s'
  assume "evalEquals v1 v2 s = Inr (r, s')"
  then show "s' = s"
    by (auto simp: evalEquals_def bindE_def split: Value.splits sum.splits if_splits)
next
  fix v1 v2 s r s'
  assume "evalLess v1 v2 s = Inr (r, s')"
  then show "s' = s"
    by (auto simp: evalLess_def bindE_def split: Value.splits sum.splits if_splits)
next
  show "\<exists>s. main fuel pv ''print [1] == [1];'' = Inr s \<and> stdout s = ''1'' \<and>
          heap s = [Live \<lparr>seq = [1], cap = 5, ref = 0\<rparr>, Live \<lparr>seq = [1], cap = 5, ref = 0\<rparr>]"
    by (simp add: run_compare_literals [OF assms] initState_def)
qed

theorem equals_operands_never_freed_witness:
  "(12::nat) \<le> 12 \<and>
   (\<exists>s. main 12 example_ptr_ival ''print [1] == [1];'' = Inr s \<and> stdout s = ''1'' \<and>
        heap s = [Live \<lparr>seq = [1], cap = 5, ref = 0\<rparr>, Live \<lparr>seq = [1], cap = 5, ref = 0\<rparr>])"
proof -
  have h: "(12::nat) \<le> 12"
    by simp
  show ?thesis
    using h equals_operands_never_freed [OF h, of example_ptr_ival] by blast
qed

end
